theory Spec2Isabelle
  imports Main "HOL-Library.Multiset" "HOL-Library.Sublist"
begin

section \<open>Escalator: the scale-down engine of the controller\<close>

text \<open>
  The development embeds the scale-down file of package \<^verbatim>\<open>controller\<close> (functions
  \<^verbatim>\<open>ScaleDown\<close>, \<^verbatim>\<open>TryRemoveTaintedNodes\<close>, \<^verbatim>\<open>scaleDownTaint\<close> and
  \<^verbatim>\<open>taintOldestN\<close>). The code talks to the cluster through package \<^verbatim>\<open>k8s\<close>, the
  cloud provider and the metrics registry; none of these is part of the embedded file.
  Every such interaction is written to a call history, and the answer of the outside
  world is a function of the history so far, bundled in an environment record. Log lines
  are collected in a second list, which no function ever reads.
\<close>

subsection \<open>Go integers, times and durations\<close>

text \<open>
  Go's \<^verbatim>\<open>int\<close> is taken as the 64 bit two's complement integer of the platforms
  the controller is built for. Values are mathematical integers, and the subtractions of
  the source wrap around explicitly.
\<close>

definition isInt64 :: "int \<Rightarrow> bool" where
  "isInt64 x = (- (2 ^ 63) \<le> x \<and> x < 2 ^ 63)"

definition int64 :: "int \<Rightarrow> int" where
  "int64 x = (x + 2 ^ 63) mod 2 ^ 64 - 2 ^ 63"

definition goSub :: "int \<Rightarrow> int \<Rightarrow> int" where
  "goSub a b = int64 (a - b)"

text \<open>
  A \<^verbatim>\<open>time.Time\<close> is a number of nanoseconds on the wall clock, a
  \<^verbatim>\<open>time.Duration\<close> a 64 bit number of nanoseconds. \<^verbatim>\<open>Time.Sub\<close> saturates
  at the largest and smallest duration instead of wrapping.
\<close>

definition maxDuration :: int where
  "maxDuration = 2 ^ 63 - 1"

definition minDuration :: int where
  "minDuration = - (2 ^ 63)"

definition timeSub :: "int \<Rightarrow> int \<Rightarrow> int" where
  "timeSub t u = (if t - u > maxDuration then maxDuration
                  else if t - u < minDuration then minDuration else t - u)"

subsection \<open>Data model\<close>

text \<open>Of \<^verbatim>\<open>v1.Node\<close> the code reads the name and the creation timestamp.\<close>

record Node =
  Name :: string
  CreationTimestamp :: int

text \<open>
  Go errors. The one error the embedded code builds itself is the message of
  \<^verbatim>\<open>scaleDownTaint\<close> (number of nodes, configured minimum); every other error comes
  from a collaborator and is opaque.
\<close>

datatype error =
    BelowMinimum int int
  | ExternalError string

text \<open>
  \<^verbatim>\<open>NodeGroupOptions\<close>: the configuration of a node group. The two grace periods are
  read through the methods \<^verbatim>\<open>SoftDeleteGracePeriodDuration()\<close> and
  \<^verbatim>\<open>HardDeleteGracePeriodDuration()\<close>, whose results are the fields here.
\<close>

record NodeGroupOptions =
  GroupName :: string
  MinNodes :: int
  GroupDryMode :: bool
  SoftDeleteGracePeriodDuration :: int
  HardDeleteGracePeriodDuration :: int

text \<open>
  \<^verbatim>\<open>NodeGroupState\<close>: options, the node infos the emptiness check reads (kept abstract
  as \<open>'i\<close>) and the names tainted in dry mode. The handle \<^verbatim>\<open>ASG\<close> of the cloud
  provider is the \<open>DeleteNodes\<close> entry of the environment.
\<close>

record 'i NodeGroupState =
  Opts :: NodeGroupOptions
  NodeInfos :: 'i
  taintTracker :: "string list"

text \<open>\<^verbatim>\<open>scaleOpts\<close>: the per cycle bundle handed to \<^verbatim>\<open>ScaleDown\<close>.\<close>

record 'i scaleOpts =
  taintedNodes :: "Node list"
  untaintedNodes :: "Node list"
  nodeGroup :: "'i NodeGroupState"
  nodesDelta :: int

text \<open>
  Of the controller the code reads the master dry mode flag, \<^verbatim>\<open>c.Opts.DryMode\<close>, and
  the client handle, which here is the call history.
\<close>

record Controller =
  MasterDryMode :: bool

text \<open>\<^verbatim>\<open>nodeIndexBundle\<close>: a node with its position in the list it came from.\<close>

record nodeIndexBundle =
  node :: Node
  index :: nat

subsection \<open>The outside world\<close>

text \<open>
  The calls the code makes, in the order it makes them: reading the clock, the requests to
  the cluster and the cloud provider, the taint metric (whose registry is taken to accept
  every value) and the operations of the fail-safe lock.
\<close>

datatype call =
    TimeNow
  | AddToBeRemovedTaintCall Node
  | CordonCall Node
  | DeleteNodesCall "Node list"
  | NodeGroupTaintEventAdd string int
  | BeginTaintFailSafeCall int
  | EndTaintFailSafeCall int
  | IncrementTaintCountCall

text \<open>One constructor for each logging statement of the file, with its arguments.\<close>

datatype logline =
    LogReapingWentBad error
  | LogReaperDeleted int
  | LogUnableToGetTaintedTime "error option" string
  | LogCordoning bool string
  | LogCordonFailed error
  | LogNotReady string
  | LogNotReadyYet string int
  | LogDeleteFailed error "Node list"
  | LogSentDelete int
  | LogAdjusting int int
  | LogCancelling error
  | LogScalingDown string int
  | LogLockFailed error
  | LogValidateFailed error
  | LogTaintedTotal int
  | LogTainting bool string
  | LogWhileTainting string error

record world =
  calls :: "call list"
  logs :: "logline list"

text \<open>
  A function either returns or panics. Nothing in the file recovers from a panic, so the
  world at the panic is the last one.
\<close>

datatype 'a outcome =
    Return 'a
  | Panic world

definition call :: "call \<Rightarrow> world \<Rightarrow> world" where
  "call e w = w\<lparr>calls := calls w @ [e]\<rparr>"

definition logln :: "logline \<Rightarrow> world \<Rightarrow> world" where
  "logln l w = w\<lparr>logs := logs w @ [l]\<rparr>"

text \<open>
  The collaborators. Each answer may depend on everything that was called before.
  \<open>MaxSliceCap\<close> is the largest capacity the Go runtime grants a slice of integers.
  \<open>GetToBeRemovedTime\<close> returns Go's pair (time pointer, error); \<open>sortSort\<close> is
  \<^verbatim>\<open>sort.Sort\<close> of the standard library at type \<^verbatim>\<open>nodesByOldestCreationTime\<close>.
\<close>

record 'i env =
  MaximumTaints :: int
  MaxSliceCap :: int
  timeNow :: "call list \<Rightarrow> int"
  GetToBeRemovedTime :: "Node \<Rightarrow> int option \<times> error option"
  NodeEmpty :: "Node \<Rightarrow> 'i \<Rightarrow> bool"
  Cordon :: "call list \<Rightarrow> Node \<Rightarrow> error + Node"
  AddToBeRemovedTaint :: "call list \<Rightarrow> Node \<Rightarrow> error + Node"
  DeleteNodes :: "call list \<Rightarrow> Node list \<Rightarrow> error option"
  BeginTaintFailSafe :: "call list \<Rightarrow> int \<Rightarrow> error option"
  EndTaintFailSafe :: "call list \<Rightarrow> int \<Rightarrow> error option"
  sortSort :: "nodeIndexBundle list \<Rightarrow> nodeIndexBundle list"

text \<open>
  Modelled from the spec: \<^verbatim>\<open>Controller.dryMode\<close> is not in the embedded file. Dry mode
  is a flag of the node group's configuration, and the master flag of the command line
  forces it on every node group (\<^verbatim>\<open>cmd/main.go\<close>).
\<close>

definition dryMode :: "Controller \<Rightarrow> 'i NodeGroupState \<Rightarrow> bool" where
  "dryMode c ng = (MasterDryMode c \<or> GroupDryMode (Opts ng))"

text \<open>
  Modelled from the spec: the \<^verbatim>\<open>Less\<close> method of \<^verbatim>\<open>nodesByOldestCreationTime\<close> is
  not in the embedded file. The ranking is oldest first by creation timestamp, with no
  second key.
\<close>

definition Less :: "nodeIndexBundle \<Rightarrow> nodeIndexBundle \<Rightarrow> bool" where
  "Less a b = (CreationTimestamp (node a) < CreationTimestamp (node b))"

subsection \<open>taintOldestN\<close>

text \<open>The first loop: every node is paired with its position.\<close>

fun bundleFrom :: "nat \<Rightarrow> Node list \<Rightarrow> nodeIndexBundle list" where
  "bundleFrom i [] = []"
| "bundleFrom i (nd # nodes) = \<lparr>node = nd, index = i\<rparr> # bundleFrom (Suc i) nodes"

definition ranking :: "'i env \<Rightarrow> Node list \<Rightarrow> nodeIndexBundle list" where
  "ranking env nodes = sortSort env (bundleFrom 0 nodes)"

text \<open>
  The second loop, over the ranking that is left, with the loop index \<open>i\<close> and the
  indices collected so far. The assignment to \<^verbatim>\<open>bundle.node\<close> changes the loop's own
  copy and has no effect.
\<close>

fun taintLoop :: "'i env \<Rightarrow> Controller \<Rightarrow> int \<Rightarrow> nodeIndexBundle list \<Rightarrow> nat \<Rightarrow> nat list
    \<Rightarrow> 'i NodeGroupState \<Rightarrow> world \<Rightarrow> nat list \<times> 'i NodeGroupState \<times> world" where
  "taintLoop env c n [] i taintedIndices ng w = (taintedIndices, ng, w)"
| "taintLoop env c n (bundle # rest) i taintedIndices ng w =
     (if int (length taintedIndices) \<ge> n \<or> int i \<ge> MaximumTaints env
      then (taintedIndices, ng, w)
      else if \<not> dryMode c ng then
        (let w1 = logln (LogTainting False (Name (node bundle))) w;
             r = AddToBeRemovedTaint env (calls w1) (node bundle);
             w2 = call (AddToBeRemovedTaintCall (node bundle)) w1
         in case r of
              Inl err \<Rightarrow>
                taintLoop env c n rest (Suc i) taintedIndices ng
                  (logln (LogWhileTainting (Name (node bundle)) err) w2)
            | Inr updatedNode \<Rightarrow>
                taintLoop env c n rest (Suc i) (taintedIndices @ [index bundle]) ng w2)
      else
        taintLoop env c n rest (Suc i) (taintedIndices @ [index bundle])
          (ng\<lparr>taintTracker := taintTracker ng @ [Name (node bundle)]\<rparr>)
          (logln (LogTainting True (Name (node bundle))) (call IncrementTaintCountCall w)))"

text \<open>
  Between the two loops the slice of indices is made with capacity \<open>n\<close>:
  \<^verbatim>\<open>make([]int, 0, n)\<close> panics when \<open>n\<close> is negative or more than the runtime grants.
\<close>

definition taintOldestN :: "'i env \<Rightarrow> Controller \<Rightarrow> Node list \<Rightarrow> 'i NodeGroupState \<Rightarrow> int
    \<Rightarrow> world \<Rightarrow> (nat list \<times> 'i NodeGroupState \<times> world) outcome" where
  "taintOldestN env c nodes ng n w =
     (let sorted = ranking env nodes
      in if n < 0 \<or> MaxSliceCap env < n then Panic w
         else Return (taintLoop env c n sorted 0 [] ng w))"

subsection \<open>TryRemoveTaintedNodes\<close>

text \<open>
  The block that runs for a node that is ready to be deleted: the node is cordoned first
  and, when that worked, joins the batch. In dry mode only the log line is written.
\<close>

definition cordonAndAccumulate :: "'i env \<Rightarrow> Controller \<Rightarrow> 'i scaleOpts \<Rightarrow> Node \<Rightarrow> Node list
    \<Rightarrow> world \<Rightarrow> Node list \<times> world" where
  "cordonAndAccumulate env c opts candidate toBeDeleted w =
     (let drymode = dryMode c (nodeGroup opts);
          w1 = logln (LogCordoning drymode (Name candidate)) w
      in if \<not> drymode then
           (let r = Cordon env (calls w1) candidate;
                w2 = call (CordonCall candidate) w1
            in case r of
                 Inl err \<Rightarrow> (toBeDeleted, logln (LogCordonFailed err) w2)
               | Inr cordonedNode \<Rightarrow> (toBeDeleted @ [cordonedNode], w2))
         else (toBeDeleted, w1))"

text \<open>The body of the loop for one candidate; \<^verbatim>\<open>continue\<close> is its return.\<close>

definition reapStep :: "'i env \<Rightarrow> Controller \<Rightarrow> 'i scaleOpts \<Rightarrow> Node \<Rightarrow> Node list \<Rightarrow> world
    \<Rightarrow> Node list \<times> world" where
  "reapStep env c opts candidate toBeDeleted w =
     (case GetToBeRemovedTime env candidate of (taintedTime, err) \<Rightarrow>
        (case taintedTime of
           None \<Rightarrow> (toBeDeleted, logln (LogUnableToGetTaintedTime err (Name candidate)) w)
         | Some t \<Rightarrow>
             if err \<noteq> None
             then (toBeDeleted, logln (LogUnableToGetTaintedTime err (Name candidate)) w)
             else
               (let now = timeNow env (calls w);
                    w1 = call TimeNow w;
                    soft = SoftDeleteGracePeriodDuration (Opts (nodeGroup opts));
                    hard = HardDeleteGracePeriodDuration (Opts (nodeGroup opts))
                in if timeSub now t > soft then
                     (if NodeEmpty env candidate (NodeInfos (nodeGroup opts)) \<or> timeSub now t > hard
                      then cordonAndAccumulate env c opts candidate toBeDeleted w1
                      else (toBeDeleted, logln (LogNotReady (Name candidate)) w1))
                   else
                     (toBeDeleted,
                      logln (LogNotReadyYet (Name candidate) (goSub soft (timeSub now t))) w1))))"

fun reapLoop :: "'i env \<Rightarrow> Controller \<Rightarrow> 'i scaleOpts \<Rightarrow> Node list \<Rightarrow> Node list \<Rightarrow> world
    \<Rightarrow> Node list \<times> world" where
  "reapLoop env c opts [] toBeDeleted w = (toBeDeleted, w)"
| "reapLoop env c opts (candidate # rest) toBeDeleted w =
     (case reapStep env c opts candidate toBeDeleted w of
        (toBeDeleted', w') \<Rightarrow> reapLoop env c opts rest toBeDeleted' w')"

text \<open>The result is Go's pair (count, error) and the world after the call.\<close>

definition TryRemoveTaintedNodes :: "'i env \<Rightarrow> Controller \<Rightarrow> 'i scaleOpts \<Rightarrow> world
    \<Rightarrow> int \<times> error option \<times> world" where
  "TryRemoveTaintedNodes env c opts w =
     (case reapLoop env c opts (taintedNodes opts) [] w of
        (toBeDeleted, w1) \<Rightarrow>
          (let err = DeleteNodes env (calls w1) toBeDeleted;
               w2 = call (DeleteNodesCall toBeDeleted) w1;
               w3 = (case err of
                       Some e \<Rightarrow> logln (LogDeleteFailed e toBeDeleted) w2
                     | None \<Rightarrow> w2);
               w4 = logln (LogSentDelete (int (length toBeDeleted))) w3
           in (int (length toBeDeleted), None, w4)))"

subsection \<open>scaleDownTaint\<close>

text \<open>
  The part of \<^verbatim>\<open>scaleDownTaint\<close> after the clamp, for the value \<^verbatim>\<open>nodesToRemove\<close>
  has there: the metric, the fail-safe lock around the tainting loop and its validation.
  The node group is returned with the tracker the loop has extended.
\<close>

definition taintWithFailSafe :: "'i env \<Rightarrow> Controller \<Rightarrow> 'i scaleOpts \<Rightarrow> int \<Rightarrow> world
    \<Rightarrow> (int \<times> error option \<times> 'i NodeGroupState \<times> world) outcome" where
  "taintWithFailSafe env c opts nodesToRemove w =
     (let nodegroupName = GroupName (Opts (nodeGroup opts));
          w1 = logln (LogScalingDown nodegroupName nodesToRemove) w;
          w2 = call (NodeGroupTaintEventAdd nodegroupName nodesToRemove) w1;
          beginErr = BeginTaintFailSafe env (calls w2) nodesToRemove;
          w3 = call (BeginTaintFailSafeCall nodesToRemove) w2
      in case beginErr of
           Some err \<Rightarrow> Return (0, Some err, nodeGroup opts, logln (LogLockFailed err) w3)
         | None \<Rightarrow>
             (case taintOldestN env c (untaintedNodes opts) (nodeGroup opts) nodesToRemove w3 of
                Panic w4 \<Rightarrow> Panic w4
              | Return (tainted, ng, w4) \<Rightarrow>
                  (let endErr = EndTaintFailSafe env (calls w4) (int (length tainted));
                       w5 = call (EndTaintFailSafeCall (int (length tainted))) w4
                   in case endErr of
                        Some err \<Rightarrow>
                          Return (int (length tainted), Some err, ng,
                                  logln (LogValidateFailed err) w5)
                      | None \<Rightarrow>
                          Return (int (length tainted), None, ng,
                                  logln (LogTaintedTotal (int (length tainted))) w5))))"

definition scaleDownTaint :: "'i env \<Rightarrow> Controller \<Rightarrow> 'i scaleOpts \<Rightarrow> world
    \<Rightarrow> (int \<times> error option \<times> 'i NodeGroupState \<times> world) outcome" where
  "scaleDownTaint env c opts w =
     (let nodesToRemove = nodesDelta opts;
          len = int (length (untaintedNodes opts));
          minNodes = MinNodes (Opts (nodeGroup opts))
      in if goSub len nodesToRemove < minNodes then
           (let nodesToRemove = goSub len minNodes;
                w1 = logln (LogAdjusting minNodes nodesToRemove) w
            in if nodesToRemove < 0 then
                 (let err = BelowMinimum len minNodes
                  in Return (0, Some err, nodeGroup opts, logln (LogCancelling err) w1))
               else taintWithFailSafe env c opts nodesToRemove w1)
         else taintWithFailSafe env c opts nodesToRemove w)"

subsection \<open>ScaleDown\<close>

text \<open>
  What \<^verbatim>\<open>ScaleDown\<close> does with the reaper's result: the warning when the reaper
  returned an error, the info line, then the tainter, whose result is returned.
\<close>

definition afterReaper :: "'i env \<Rightarrow> Controller \<Rightarrow> 'i scaleOpts \<Rightarrow> int \<Rightarrow> error option \<Rightarrow> world
    \<Rightarrow> (int \<times> error option \<times> 'i NodeGroupState \<times> world) outcome" where
  "afterReaper env c opts removed err w1 =
     (let w2 = (case err of
                  Some e \<Rightarrow> logln (LogReapingWentBad e) w1
                | None \<Rightarrow> w1);
          w3 = logln (LogReaperDeleted removed) w2
      in scaleDownTaint env c opts w3)"

definition ScaleDown :: "'i env \<Rightarrow> Controller \<Rightarrow> 'i scaleOpts \<Rightarrow> world
    \<Rightarrow> (int \<times> error option \<times> 'i NodeGroupState \<times> world) outcome" where
  "ScaleDown env c opts w =
     (case TryRemoveTaintedNodes env c opts w of
        (removed, err, w1) \<Rightarrow> afterReaper env c opts removed err w1)"

subsection \<open>Notions used to state the properties\<close>

text \<open>
  The call a candidate costs when the tainting loop examines it: the taint request in
  real mode, the bump of the dry-run counter in dry mode.
\<close>

definition attemptCall :: "bool \<Rightarrow> nodeIndexBundle \<Rightarrow> call" where
  "attemptCall dry b =
     (if dry then IncrementTaintCountCall else AddToBeRemovedTaintCall (node b))"

text \<open>
  Whether the attempt on a candidate marks it, when the calls so far are \<open>cs\<close>: in dry
  mode always, in real mode when \<^verbatim>\<open>AddToBeRemovedTaint\<close> answers without an error.
\<close>

definition attemptSucceeds :: "'i env \<Rightarrow> bool \<Rightarrow> call list \<Rightarrow> nodeIndexBundle \<Rightarrow> bool" where
  "attemptSucceeds env dry cs b =
     (dry \<or> (case AddToBeRemovedTaint env cs (node b) of
              Inl err \<Rightarrow> False
            | Inr updatedNode \<Rightarrow> True))"

text \<open>
  The candidates marked when the bundles \<open>bs\<close> are attempted one after the other,
  starting from the calls \<open>cs\<close>.
\<close>

fun succeeded :: "'i env \<Rightarrow> bool \<Rightarrow> call list \<Rightarrow> nodeIndexBundle list
    \<Rightarrow> nodeIndexBundle list" where
  "succeeded env dry cs [] = []"
| "succeeded env dry cs (b # bs) =
     (if attemptSucceeds env dry cs b then [b] else [])
       @ succeeded env dry (cs @ [attemptCall dry b]) bs"

text \<open>The world a run of the tainter ends in, returned or not.\<close>

fun worldOf :: "('a \<times> 'b \<times> 'c \<times> world) outcome \<Rightarrow> world" where
  "worldOf (Return (tainted, err, ng, w)) = w"
| "worldOf (Panic w) = w"

text \<open>The number of calls made between two worlds.\<close>

definition callsMade :: "world \<Rightarrow> world \<Rightarrow> nat" where
  "callsMade w w' = length (calls w') - length (calls w)"

text \<open>
  The value the variable \<^verbatim>\<open>nodesToRemove\<close> of \<^verbatim>\<open>scaleDownTaint\<close> has after the
  clamp, and the condition under which the function gives up there.
\<close>

definition clampedNodesToRemove :: "'i scaleOpts \<Rightarrow> int" where
  "clampedNodesToRemove opts =
     (if goSub (int (length (untaintedNodes opts))) (nodesDelta opts)
           < MinNodes (Opts (nodeGroup opts))
      then goSub (int (length (untaintedNodes opts))) (MinNodes (Opts (nodeGroup opts)))
      else nodesDelta opts)"

definition belowMinimum :: "'i scaleOpts \<Rightarrow> bool" where
  "belowMinimum opts =
     (goSub (int (length (untaintedNodes opts))) (nodesDelta opts)
        < MinNodes (Opts (nodeGroup opts))
      \<and> goSub (int (length (untaintedNodes opts))) (MinNodes (Opts (nodeGroup opts))) < 0)"

text \<open>A tainted node whose removal time can be read: a time and no error.\<close>

definition readable :: "'i env \<Rightarrow> Node \<Rightarrow> bool" where
  "readable env candidate =
     (case GetToBeRemovedTime env candidate of
        (Some t, None) \<Rightarrow> True
      | _ \<Rightarrow> False)"

text \<open>
  The grace periods as the specification words them, for a node tainted \<open>T\<close> ago with
  soft period \<open>S\<close> and hard period \<open>H\<close>: not eligible while \<open>T \<le> S\<close>, eligible
  only if empty while \<open>S < T \<le> H\<close>, eligible whatever it carries once \<open>T > H\<close>.
\<close>

definition eligibleForDeletion :: "int \<Rightarrow> int \<Rightarrow> int \<Rightarrow> bool \<Rightarrow> bool" where
  "eligibleForDeletion T S H isEmpty =
     (if T \<le> S then False else if T \<le> H then isEmpty else True)"

text \<open>
  The reaper as the specification describes it, to compare \<^verbatim>\<open>TryRemoveTaintedNodes\<close>
  with. It walks the tainted nodes from the calls \<open>cs\<close> and gives the nodes it treats as
  eligible, the batch to delete and the calls made. A node whose removal time cannot be
  read is passed over; for any other node the clock is read, and the node is eligible as
  \<open>eligibleForDeletion\<close> says. In real mode an eligible node is cordoned and, when
  that worked, what the cordon returned joins the batch; in dry mode nothing more is done.
\<close>

fun reaperSpec :: "'i env \<Rightarrow> bool \<Rightarrow> 'i scaleOpts \<Rightarrow> Node list \<Rightarrow> call list
    \<Rightarrow> Node list \<times> Node list \<times> call list" where
  "reaperSpec env dry opts [] cs = ([], [], cs)"
| "reaperSpec env dry opts (candidate # rest) cs =
     (case GetToBeRemovedTime env candidate of (taintedTime, err) \<Rightarrow>
        (case taintedTime of
           None \<Rightarrow> reaperSpec env dry opts rest cs
         | Some t \<Rightarrow>
             if err \<noteq> None then reaperSpec env dry opts rest cs
             else if eligibleForDeletion (timeSub (timeNow env cs) t)
                       (SoftDeleteGracePeriodDuration (Opts (nodeGroup opts)))
                       (HardDeleteGracePeriodDuration (Opts (nodeGroup opts)))
                       (NodeEmpty env candidate (NodeInfos (nodeGroup opts)))
             then
               (if dry then
                  (case reaperSpec env dry opts rest (cs @ [TimeNow]) of
                     (eligible, batch, cs') \<Rightarrow> (candidate # eligible, batch, cs'))
                else
                  (case reaperSpec env dry opts rest (cs @ [TimeNow, CordonCall candidate]) of
                     (eligible, batch, cs') \<Rightarrow>
                       (candidate # eligible,
                        (case Cordon env (cs @ [TimeNow]) candidate of
                           Inl e \<Rightarrow> batch
                         | Inr cordonedNode \<Rightarrow> cordonedNode # batch),
                        cs')))
             else reaperSpec env dry opts rest (cs @ [TimeNow])))"

text \<open>The log line that opens the block for an eligible node.\<close>

fun isCordoning :: "logline \<Rightarrow> bool" where
  "isCordoning (LogCordoning drymode name) = True"
| "isCordoning l = False"

text \<open>
  What \<^verbatim>\<open>sort.Sort\<close> promises for one input: the result is a rearrangement of the
  input in which no element is \<open>Less\<close> than an earlier one. The sort is not stable, so
  nothing is said about elements of equal age.
\<close>

definition sortsByLess :: "(nodeIndexBundle list \<Rightarrow> nodeIndexBundle list)
    \<Rightarrow> nodeIndexBundle list \<Rightarrow> bool" where
  "sortsByLess srt bs =
     (mset (srt bs) = mset bs \<and> sorted_wrt (\<lambda>a b. \<not> Less b a) (srt bs))"

subsection \<open>A small cluster to run the functions on\<close>

text \<open>
  Three untainted nodes, of which \<open>b\<close> is the oldest and cannot be tainted, and four
  tainted nodes at different points of their grace periods. The clock stands at 1000;
  the node infos are the names of the empty nodes.
\<close>

definition nodeA :: Node where
  "nodeA = \<lparr>Name = ''a'', CreationTimestamp = 30\<rparr>"

definition nodeB :: Node where
  "nodeB = \<lparr>Name = ''b'', CreationTimestamp = 10\<rparr>"

definition nodeC :: Node where
  "nodeC = \<lparr>Name = ''c'', CreationTimestamp = 20\<rparr>"

definition nodeT1 :: Node where
  "nodeT1 = \<lparr>Name = ''t1'', CreationTimestamp = 1\<rparr>"

definition nodeT2 :: Node where
  "nodeT2 = \<lparr>Name = ''t2'', CreationTimestamp = 2\<rparr>"

definition nodeT3 :: Node where
  "nodeT3 = \<lparr>Name = ''t3'', CreationTimestamp = 3\<rparr>"

definition nodeT4 :: Node where
  "nodeT4 = \<lparr>Name = ''t4'', CreationTimestamp = 4\<rparr>"

definition sampleEnv :: "string list env" where
  "sampleEnv =
     \<lparr>MaximumTaints = 10,
      MaxSliceCap = 2 ^ 45,
      timeNow = (\<lambda>cs. 1000),
      GetToBeRemovedTime = (\<lambda>nd.
        if Name nd = ''t1'' then (Some 950, None)
        else if Name nd = ''t2'' then (Some 800, None)
        else if Name nd = ''t3'' then (Some 100, None)
        else (None, Some (ExternalError ''no taint''))),
      NodeEmpty = (\<lambda>nd infos. Name nd \<in> set infos),
      Cordon = (\<lambda>cs nd. Inr nd),
      AddToBeRemovedTaint = (\<lambda>cs nd.
        if Name nd = ''b'' then Inl (ExternalError ''conflict'') else Inr nd),
      DeleteNodes = (\<lambda>cs nds. None),
      BeginTaintFailSafe = (\<lambda>cs n.
        if n > 10 then Some (ExternalError ''over the maximum'') else None),
      EndTaintFailSafe = (\<lambda>cs k.
        if BeginTaintFailSafeCall k \<in> set cs then None
        else Some (ExternalError ''mismatch'')),
      sortSort = sort_key (\<lambda>b. CreationTimestamp (node b))\<rparr>"

text \<open>
  A fifth tainted node, in the middle of its grace periods like \<open>t2\<close> but not empty.
\<close>

definition nodeT5 :: Node where
  "nodeT5 = \<lparr>Name = ''t5'', CreationTimestamp = 5\<rparr>"

definition graceEnv :: "string list env" where
  "graceEnv =
     sampleEnv\<lparr>GetToBeRemovedTime := (\<lambda>nd.
        if Name nd = ''t1'' then (Some 950, None)
        else if Name nd = ''t2'' then (Some 800, None)
        else if Name nd = ''t3'' then (Some 100, None)
        else if Name nd = ''t5'' then (Some 700, None)
        else (None, Some (ExternalError ''no taint'')))\<rparr>"

definition sampleController :: Controller where
  "sampleController = \<lparr>MasterDryMode = False\<rparr>"

definition sampleOptions :: NodeGroupOptions where
  "sampleOptions =
     \<lparr>GroupName = ''workers'', MinNodes = 1, GroupDryMode = False,
      SoftDeleteGracePeriodDuration = 100, HardDeleteGracePeriodDuration = 500\<rparr>"

definition sampleGroup :: "string list NodeGroupState" where
  "sampleGroup = \<lparr>Opts = sampleOptions, NodeInfos = [''t2''], taintTracker = []\<rparr>"

definition dryGroup :: "string list NodeGroupState" where
  "dryGroup = \<lparr>Opts = sampleOptions\<lparr>GroupDryMode := True\<rparr>, NodeInfos = [''t2''],
     taintTracker = []\<rparr>"

definition emptyWorld :: world where
  "emptyWorld = \<lparr>calls = [], logs = []\<rparr>"

definition sampleOpts :: "string list scaleOpts" where
  "sampleOpts =
     \<lparr>taintedNodes = [nodeT1, nodeT2, nodeT3, nodeT4],
      untaintedNodes = [nodeA, nodeB, nodeC],
      nodeGroup = sampleGroup,
      nodesDelta = 1\<rparr>"

definition graceOpts :: "string list scaleOpts" where
  "graceOpts = sampleOpts\<lparr>taintedNodes := [nodeT1, nodeT2, nodeT5, nodeT3, nodeT4]\<rparr>"

text \<open>Five untainted nodes under a minimum of four, with three asked for.\<close>

definition clampOpts :: "string list scaleOpts" where
  "clampOpts =
     \<lparr>taintedNodes = [],
      untaintedNodes = [nodeA, nodeB, nodeC, nodeT1, nodeT2],
      nodeGroup = sampleGroup\<lparr>Opts := sampleOptions\<lparr>MinNodes := 4\<rparr>\<rparr>,
      nodesDelta = 3\<rparr>"

text \<open>Three untainted nodes under a minimum of five.\<close>

definition shortOpts :: "string list scaleOpts" where
  "shortOpts =
     \<lparr>taintedNodes = [],
      untaintedNodes = [nodeA, nodeB, nodeC],
      nodeGroup = sampleGroup\<lparr>Opts := sampleOptions\<lparr>MinNodes := 5\<rparr>\<rparr>,
      nodesDelta = 2\<rparr>"

text \<open>Fourteen untainted nodes and a request for twelve, more than the lock grants.\<close>

definition refusedOpts :: "string list scaleOpts" where
  "refusedOpts = sampleOpts\<lparr>untaintedNodes := replicate 14 nodeA, nodesDelta := 12\<rparr>"

text \<open>
  A request for all three nodes with no minimum: \<open>b\<close> cannot be tainted, so the loop
  taints two and the validation of the lock reports the difference.
\<close>

definition mismatchOpts :: "string list scaleOpts" where
  "mismatchOpts =
     sampleOpts\<lparr>nodeGroup := sampleGroup\<lparr>Opts := sampleOptions\<lparr>MinNodes := 0\<rparr>\<rparr>,
       nodesDelta := 3\<rparr>"

text \<open>The sample environment with a cloud provider that refuses to delete.\<close>

definition brokenDeleteEnv :: "string list env" where
  "brokenDeleteEnv = sampleEnv\<lparr>DeleteNodes := (\<lambda>cs nds. Some (ExternalError ''asg''))\<rparr>"

section \<open>Properties\<close>

subsection \<open>Calls and log lines\<close>

lemma calls_call [simp]: "calls (call e w) = calls w @ [e]"
  by (simp add: call_def)

lemma calls_logln [simp]: "calls (logln l w) = calls w"
  by (simp add: logln_def)

lemma logs_call [simp]: "logs (call e w) = logs w"
  by (simp add: call_def)

lemma logs_logln [simp]: "logs (logln l w) = logs w @ [l]"
  by (simp add: logln_def)

lemma dryMode_taintTracker [simp]: "dryMode c (ng\<lparr>taintTracker := t\<rparr>) = dryMode c ng"
  by (simp add: dryMode_def)

lemmas sample_defs =
  nodeA_def nodeB_def nodeC_def nodeT1_def nodeT2_def nodeT3_def nodeT4_def sampleEnv_def
  sampleController_def sampleOptions_def sampleGroup_def dryGroup_def emptyWorld_def
  sampleOpts_def nodeT5_def graceEnv_def graceOpts_def clampOpts_def shortOpts_def refusedOpts_def mismatchOpts_def brokenDeleteEnv_def

subsection \<open>The tainting loop\<close>

text \<open>
  What a run of the loop from index \<open>i\<close> with \<open>acc\<close> already collected does:
  it examines the first \<open>k\<close> bundles, one call each, and adds \<open>new\<close> to the indices.
\<close>

lemma taintLoop_trace:
  "taintLoop env c n bs i acc ng w = (idx, ng', w') \<Longrightarrow>
   \<exists>k new. k \<le> length bs \<and> idx = acc @ new \<and> length new \<le> k
     \<and> calls w' = calls w @ map (attemptCall (dryMode c ng)) (take k bs)
     \<and> int (length idx) \<le> max (int (length acc)) n
     \<and> int (i + k) \<le> max (int i) (MaximumTaints env)
     \<and> (k < length bs \<longrightarrow> n \<le> int (length idx) \<or> MaximumTaints env \<le> int (i + k))
     \<and> (0 < k \<and> n \<le> int (length idx) \<longrightarrow> new \<noteq> [] \<and> last new = index (bs ! (k - 1)))"
proof (induction bs arbitrary: i acc ng w)
  case Nil
  then show ?case by simp
next
  case (Cons b rest)
  show ?case
  proof (cases "n \<le> int (length acc) \<or> MaximumTaints env \<le> int i")
    case True
    with Cons.prems have "idx = acc" "w' = w" by auto
    with True show ?thesis
      by (intro exI[of _ 0] exI[of _ "[]"]) auto
  next
    case stop: False
    show ?thesis
    proof (cases "dryMode c ng")
      case True
      let ?ng = "ng\<lparr>taintTracker := taintTracker ng @ [Name (node b)]\<rparr>"
      let ?w = "logln (LogTainting True (Name (node b))) (call IncrementTaintCountCall w)"
      from Cons.prems stop True
      have "taintLoop env c n rest (Suc i) (acc @ [index b]) ?ng ?w = (idx, ng', w')"
        by simp
      from Cons.IH[OF this] obtain k new where
        k: "k \<le> length rest" "idx = (acc @ [index b]) @ new" "length new \<le> k"
           "calls w' = calls ?w @ map (attemptCall (dryMode c ?ng)) (take k rest)"
           "int (length idx) \<le> max (int (length (acc @ [index b]))) n"
           "int (Suc i + k) \<le> max (int (Suc i)) (MaximumTaints env)"
           "k < length rest \<longrightarrow> n \<le> int (length idx) \<or> MaximumTaints env \<le> int (Suc i + k)"
           "0 < k \<and> n \<le> int (length idx) \<longrightarrow> new \<noteq> [] \<and> last new = index (rest ! (k - 1))"
        by blast
      from k(3) have "new \<noteq> [] \<longrightarrow> 0 < k" by (cases new) auto
      then show ?thesis
        using k stop True
        by (intro exI[of _ "Suc k"] exI[of _ "index b # new"]) (auto simp: attemptCall_def nth_Cons')
    next
      case False
      let ?w1 = "logln (LogTainting False (Name (node b))) w"
      let ?w2 = "call (AddToBeRemovedTaintCall (node b)) ?w1"
      show ?thesis
      proof (cases "AddToBeRemovedTaint env (calls ?w1) (node b)")
        case (Inl err)
        let ?w = "logln (LogWhileTainting (Name (node b)) err) ?w2"
        from Cons.prems stop False Inl
        have "taintLoop env c n rest (Suc i) acc ng ?w = (idx, ng', w')"
          by simp
        from Cons.IH[OF this] obtain k new where
          k: "k \<le> length rest" "idx = acc @ new" "length new \<le> k"
             "calls w' = calls ?w @ map (attemptCall (dryMode c ng)) (take k rest)"
             "int (length idx) \<le> max (int (length acc)) n"
             "int (Suc i + k) \<le> max (int (Suc i)) (MaximumTaints env)"
             "k < length rest \<longrightarrow> n \<le> int (length idx) \<or> MaximumTaints env \<le> int (Suc i + k)"
             "0 < k \<and> n \<le> int (length idx) \<longrightarrow> new \<noteq> [] \<and> last new = index (rest ! (k - 1))"
          by blast
        from k(3) have "new \<noteq> [] \<longrightarrow> 0 < k" by (cases new) auto
        then show ?thesis
          using k stop False
          by (intro exI[of _ "Suc k"] exI[of _ "new"]) (auto simp: attemptCall_def nth_Cons')
      next
        case (Inr updatedNode)
        from Cons.prems stop False Inr
        have "taintLoop env c n rest (Suc i) (acc @ [index b]) ng ?w2 = (idx, ng', w')"
          by simp
        from Cons.IH[OF this] obtain k new where
          k: "k \<le> length rest" "idx = (acc @ [index b]) @ new" "length new \<le> k"
             "calls w' = calls ?w2 @ map (attemptCall (dryMode c ng)) (take k rest)"
             "int (length idx) \<le> max (int (length (acc @ [index b]))) n"
             "int (Suc i + k) \<le> max (int (Suc i)) (MaximumTaints env)"
             "k < length rest \<longrightarrow> n \<le> int (length idx) \<or> MaximumTaints env \<le> int (Suc i + k)"
             "0 < k \<and> n \<le> int (length idx) \<longrightarrow> new \<noteq> [] \<and> last new = index (rest ! (k - 1))"
          by blast
        from k(3) have "new \<noteq> [] \<longrightarrow> 0 < k" by (cases new) auto
        then show ?thesis
          using k stop False
          by (intro exI[of _ "Suc k"] exI[of _ "index b # new"]) (auto simp: attemptCall_def nth_Cons')
      qed
    qed
  qed
qed


text \<open>The loop as \<^verbatim>\<open>taintOldestN\<close> starts it, for a request and a ceiling that are not negative.\<close>

lemma taintLoop_whole:
  assumes "0 \<le> n" and "0 \<le> MaximumTaints env"
    and "taintLoop env c n bs 0 [] ng w = (tainted, ng', w')"
  shows "int (length tainted) \<le> min n (MaximumTaints env)
    \<and> calls w' = calls w @ map (attemptCall (dryMode c ng)) (take (callsMade w w') bs)
    \<and> callsMade w w' \<le> length bs
    \<and> int (callsMade w w') \<le> MaximumTaints env
    \<and> length tainted \<le> callsMade w w'
    \<and> (callsMade w w' < length bs
          \<longrightarrow> int (length tainted) = n \<or> int (callsMade w w') = MaximumTaints env)
    \<and> (int (length tainted) = n \<and> 0 < callsMade w w'
          \<longrightarrow> tainted \<noteq> [] \<and> last tainted = index (bs ! (callsMade w w' - 1)))"
proof -
  from taintLoop_trace[OF assms(3)] obtain k new where
    k: "k \<le> length bs" "tainted = new" "length new \<le> k"
       "calls w' = calls w @ map (attemptCall (dryMode c ng)) (take k bs)"
       "int (length tainted) \<le> max 0 n"
       "int k \<le> max 0 (MaximumTaints env)"
       "k < length bs \<longrightarrow> n \<le> int (length tainted) \<or> MaximumTaints env \<le> int k"
       "0 < k \<and> n \<le> int (length tainted) \<longrightarrow> new \<noteq> [] \<and> last new = index (bs ! (k - 1))"
    by auto
  from k(1,4) have made: "callsMade w w' = k"
    by (simp add: callsMade_def)
  show ?thesis
    unfolding made using k assms(1,2) by auto
qed

text \<open>
  The same run, read against the answers of the cluster: the indices added are those of
  the candidates whose attempt succeeded, the tracker grows in dry mode only, and when
  the request is met the last attempt is one that succeeded.
\<close>

lemma taintLoop_marks:
  "taintLoop env c n bs i acc ng w = (idx, ng', w') \<Longrightarrow>
   \<exists>k. k \<le> length bs
     \<and> calls w' = calls w @ map (attemptCall (dryMode c ng)) (take k bs)
     \<and> idx = acc @ map index (succeeded env (dryMode c ng) (calls w) (take k bs))
     \<and> ng' = ng\<lparr>taintTracker := taintTracker ng
                 @ (if dryMode c ng then map (\<lambda>b. Name (node b)) (take k bs) else [])\<rparr>
     \<and> (0 < k \<and> n \<le> int (length idx) \<longrightarrow>
           attemptSucceeds env (dryMode c ng)
             (calls w @ map (attemptCall (dryMode c ng)) (take (k - 1) bs)) (bs ! (k - 1)))"
proof (induction bs arbitrary: i acc ng w)
  case Nil
  then show ?case by simp
next
  case (Cons b rest)
  show ?case
  proof (cases "n \<le> int (length acc) \<or> MaximumTaints env \<le> int i")
    case True
    with Cons.prems have "idx = acc" "w' = w" "ng' = ng" by auto
    then show ?thesis
      by (intro exI[of _ 0]) auto
  next
    case stop: False
    show ?thesis
    proof (cases "dryMode c ng")
      case True
      let ?ng = "ng\<lparr>taintTracker := taintTracker ng @ [Name (node b)]\<rparr>"
      let ?w = "logln (LogTainting True (Name (node b))) (call IncrementTaintCountCall w)"
      from Cons.prems stop True
      have "taintLoop env c n rest (Suc i) (acc @ [index b]) ?ng ?w = (idx, ng', w')"
        by simp
      from Cons.IH[OF this] obtain k where
        k: "k \<le> length rest"
           "calls w' = calls ?w @ map (attemptCall (dryMode c ?ng)) (take k rest)"
           "idx = (acc @ [index b]) @ map index (succeeded env (dryMode c ?ng) (calls ?w) (take k rest))"
           "ng' = ?ng\<lparr>taintTracker := taintTracker ?ng
                 @ (if dryMode c ?ng then map (\<lambda>b. Name (node b)) (take k rest) else [])\<rparr>"
           "0 < k \<and> n \<le> int (length idx) \<longrightarrow>
              attemptSucceeds env (dryMode c ?ng)
                (calls ?w @ map (attemptCall (dryMode c ?ng)) (take (k - 1) rest)) (rest ! (k - 1))"
        by blast
      from True have ac: "attemptCall (dryMode c ng) b = IncrementTaintCountCall"
        "attemptSucceeds env (dryMode c ng) (calls w) b"
        by (simp_all add: attemptCall_def attemptSucceeds_def)
      show ?thesis
        using k stop True ac
        by (intro exI[of _ "Suc k"]) (auto simp: nth_Cons' take_Cons')
    next
      case False
      let ?w1 = "logln (LogTainting False (Name (node b))) w"
      let ?w2 = "call (AddToBeRemovedTaintCall (node b)) ?w1"
      show ?thesis
      proof (cases "AddToBeRemovedTaint env (calls ?w1) (node b)")
        case (Inl err)
        let ?w = "logln (LogWhileTainting (Name (node b)) err) ?w2"
        from Cons.prems stop False Inl
        have "taintLoop env c n rest (Suc i) acc ng ?w = (idx, ng', w')"
          by simp
        from Cons.IH[OF this] obtain k where
          k: "k \<le> length rest"
             "calls w' = calls ?w @ map (attemptCall (dryMode c ng)) (take k rest)"
             "idx = acc @ map index (succeeded env (dryMode c ng) (calls ?w) (take k rest))"
             "ng' = ng\<lparr>taintTracker := taintTracker ng
                   @ (if dryMode c ng then map (\<lambda>b. Name (node b)) (take k rest) else [])\<rparr>"
             "0 < k \<and> n \<le> int (length idx) \<longrightarrow>
                attemptSucceeds env (dryMode c ng)
                  (calls ?w @ map (attemptCall (dryMode c ng)) (take (k - 1) rest)) (rest ! (k - 1))"
          by blast
        from Inl have fail: "\<not> attemptSucceeds env (dryMode c ng) (calls w) b"
          using False by (simp add: attemptSucceeds_def)
        have zero: "k = 0 \<Longrightarrow> idx = acc"
          using k(3) by simp
        from False have ac: "attemptCall (dryMode c ng) b = AddToBeRemovedTaintCall (node b)"
          by (simp add: attemptCall_def)
        show ?thesis
          using k stop False fail zero ac
          by (intro exI[of _ "Suc k"]) (auto simp: nth_Cons' take_Cons')
      next
        case (Inr updatedNode)
        from Cons.prems stop False Inr
        have "taintLoop env c n rest (Suc i) (acc @ [index b]) ng ?w2 = (idx, ng', w')"
          by simp
        from Cons.IH[OF this] obtain k where
          k: "k \<le> length rest"
             "calls w' = calls ?w2 @ map (attemptCall (dryMode c ng)) (take k rest)"
             "idx = (acc @ [index b]) @ map index (succeeded env (dryMode c ng) (calls ?w2) (take k rest))"
             "ng' = ng\<lparr>taintTracker := taintTracker ng
                   @ (if dryMode c ng then map (\<lambda>b. Name (node b)) (take k rest) else [])\<rparr>"
             "0 < k \<and> n \<le> int (length idx) \<longrightarrow>
                attemptSucceeds env (dryMode c ng)
                  (calls ?w2 @ map (attemptCall (dryMode c ng)) (take (k - 1) rest)) (rest ! (k - 1))"
          by blast
        from Inr have ok: "attemptSucceeds env (dryMode c ng) (calls w) b"
          by (simp add: attemptSucceeds_def)
        from False have ac: "attemptCall (dryMode c ng) b = AddToBeRemovedTaintCall (node b)"
          by (simp add: attemptCall_def)
        show ?thesis
          using k stop False ok ac
          by (intro exI[of _ "Suc k"]) (auto simp: nth_Cons' take_Cons')
      qed
    qed
  qed
qed

lemma taintLoop_whole_marks:
  assumes "taintLoop env c n bs 0 [] ng w = (tainted, ng', w')"
  shows "tainted = map index (succeeded env (dryMode c ng) (calls w) (take (callsMade w w') bs))
    \<and> ng' = ng\<lparr>taintTracker := taintTracker ng
                 @ (if dryMode c ng then map (\<lambda>b. Name (node b)) (take (callsMade w w') bs)
                    else [])\<rparr>
    \<and> (int (length tainted) = n \<and> 0 < callsMade w w' \<longrightarrow>
          attemptSucceeds env (dryMode c ng)
            (calls w @ map (attemptCall (dryMode c ng)) (take (callsMade w w' - 1) bs))
            (bs ! (callsMade w w' - 1)))"
proof -
  from taintLoop_marks[OF assms] obtain k where
    k: "k \<le> length bs"
       "calls w' = calls w @ map (attemptCall (dryMode c ng)) (take k bs)"
       "tainted = [] @ map index (succeeded env (dryMode c ng) (calls w) (take k bs))"
       "ng' = ng\<lparr>taintTracker := taintTracker ng
                 @ (if dryMode c ng then map (\<lambda>b. Name (node b)) (take k bs) else [])\<rparr>"
       "0 < k \<and> n \<le> int (length tainted) \<longrightarrow>
           attemptSucceeds env (dryMode c ng)
             (calls w @ map (attemptCall (dryMode c ng)) (take (k - 1) bs)) (bs ! (k - 1))"
    by blast
  from k(1,2) have made: "callsMade w w' = k"
    by (simp add: callsMade_def)
  show ?thesis
    unfolding made using k(3,4,5) by simp
qed

text \<open>
  Claim C1. For a request \<open>n \<ge> 0\<close> (and a ceiling that is not negative),
  \<^verbatim>\<open>taintOldestN\<close> panics on a capacity the runtime does not grant, before anything
  is done, and otherwise returns at most \<open>min n MaximumTaints\<close> indices. The candidates
  it examines are the first ones of the ranking, one call each, so their number is the
  number of calls made; it never exceeds the ceiling, failed attempts included. The
  indices returned are exactly those of the examined candidates whose attempt succeeded
  (in real mode: \<^verbatim>\<open>AddToBeRemovedTaint\<close> answered without an error), in the order of
  the ranking, so the nodes marked are as many as the indices returned. When the walk
  leaves candidates unexamined, exactly one of the two limits has been reached, and when
  \<open>n\<close> nodes are marked the last attempt made is one that succeeded: nothing is
  examined after the \<open>n\<close>-th success.
\<close>

theorem taintOldestN_stops_at_n_or_ceiling:
  assumes "0 \<le> n" and "0 \<le> MaximumTaints env"
  shows "case taintOldestN env c nodes ng n w of
           Panic w' \<Rightarrow> MaxSliceCap env < n \<and> w' = w
         | Return (tainted, ng', w') \<Rightarrow>
             n \<le> MaxSliceCap env
             \<and> int (length tainted) \<le> min n (MaximumTaints env)
             \<and> calls w' = calls w @ map (attemptCall (dryMode c ng))
                                      (take (callsMade w w') (ranking env nodes))
             \<and> callsMade w w' \<le> length (ranking env nodes)
             \<and> int (callsMade w w') \<le> MaximumTaints env
             \<and> length tainted \<le> callsMade w w'
             \<and> (callsMade w w' < length (ranking env nodes)
                  \<longrightarrow> int (length tainted) = n \<or> int (callsMade w w') = MaximumTaints env)
             \<and> (int (length tainted) = n \<and> 0 < callsMade w w'
                  \<longrightarrow> tainted \<noteq> []
                      \<and> last tainted = index (ranking env nodes ! (callsMade w w' - 1)))
             \<and> tainted = map index (succeeded env (dryMode c ng) (calls w)
                                      (take (callsMade w w') (ranking env nodes)))
             \<and> ng' = ng\<lparr>taintTracker := taintTracker ng
                          @ (if dryMode c ng
                             then map (\<lambda>b. Name (node b))
                                    (take (callsMade w w') (ranking env nodes))
                             else [])\<rparr>
             \<and> (int (length tainted) = n \<and> 0 < callsMade w w'
                  \<longrightarrow> attemptSucceeds env (dryMode c ng)
                        (calls w @ map (attemptCall (dryMode c ng))
                                     (take (callsMade w w' - 1) (ranking env nodes)))
                        (ranking env nodes ! (callsMade w w' - 1)))"
proof (cases "MaxSliceCap env < n")
  case True
  with assms(1) show ?thesis
    by (simp add: taintOldestN_def)
next
  case False
  obtain tainted ng' w' where
    run: "taintLoop env c n (ranking env nodes) 0 [] ng w = (tainted, ng', w')"
    by (cases "taintLoop env c n (ranking env nodes) 0 [] ng w")
  with False assms(1) have "taintOldestN env c nodes ng n w = Return (tainted, ng', w')"
    by (simp add: taintOldestN_def)
  with taintLoop_whole[OF assms run] taintLoop_whole_marks[OF run] False show ?thesis
    by simp
qed

theorem taintOldestN_stops_at_n_or_ceiling_witness:
  "(0::int) \<le> 1 \<and> 0 \<le> MaximumTaints sampleEnv
   \<and> taintOldestN sampleEnv sampleController [nodeA, nodeB, nodeC] sampleGroup 1 emptyWorld
       = Return ([2], sampleGroup,
          \<lparr>calls = [AddToBeRemovedTaintCall nodeB, AddToBeRemovedTaintCall nodeC],
           logs = [LogTainting False ''b'', LogWhileTainting ''b'' (ExternalError ''conflict''),
                   LogTainting False ''c'']\<rparr>)
   \<and> int (length [2::nat]) \<le> min 1 (MaximumTaints sampleEnv)
   \<and> callsMade emptyWorld
        \<lparr>calls = [AddToBeRemovedTaintCall nodeB, AddToBeRemovedTaintCall nodeC],
         logs = [LogTainting False ''b'', LogWhileTainting ''b'' (ExternalError ''conflict''),
                 LogTainting False ''c'']\<rparr> = 2
   \<and> length (ranking sampleEnv [nodeA, nodeB, nodeC]) = 3
   \<and> succeeded sampleEnv False [] (take 2 (ranking sampleEnv [nodeA, nodeB, nodeC]))
       = [\<lparr>node = nodeC, index = 2\<rparr>]
   \<and> attemptSucceeds sampleEnv False [AddToBeRemovedTaintCall nodeB] \<lparr>node = nodeC, index = 2\<rparr>"
proof -
  have m: "0 \<le> MaximumTaints sampleEnv"
    by (simp add: sampleEnv_def)
  from taintOldestN_stops_at_n_or_ceiling[where n = 1 and env = sampleEnv
      and c = sampleController and nodes = "[nodeA, nodeB, nodeC]" and ng = sampleGroup
      and w = emptyWorld] m
  show ?thesis
    by (simp add: taintOldestN_def ranking_def dryMode_def call_def logln_def callsMade_def
        attemptSucceeds_def attemptCall_def sample_defs)
qed

text \<open>In dry mode the loop is a plain walk over a prefix of the ranking.\<close>

lemma taintLoop_dry:
  "dryMode c ng \<Longrightarrow>
   taintLoop env c n bs i acc ng w =
     (acc @ map index (take (min (nat (n - int (length acc))) (nat (MaximumTaints env - int i))) bs),
      ng\<lparr>taintTracker := taintTracker ng
           @ map (\<lambda>b. Name (node b)) (take (min (nat (n - int (length acc))) (nat (MaximumTaints env - int i))) bs)\<rparr>,
      w\<lparr>calls := calls w
           @ replicate (length (take (min (nat (n - int (length acc))) (nat (MaximumTaints env - int i))) bs))
               IncrementTaintCountCall,
        logs := logs w
           @ map (\<lambda>b. LogTainting True (Name (node b)))
               (take (min (nat (n - int (length acc))) (nat (MaximumTaints env - int i))) bs)\<rparr>)"
proof (induction bs arbitrary: i acc ng w)
  case Nil
  then show ?case by simp
next
  case (Cons b rest)
  show ?case
  proof (cases "n \<le> int (length acc) \<or> MaximumTaints env \<le> int i")
    case True
    then have "min (nat (n - int (length acc))) (nat (MaximumTaints env - int i)) = 0"
      by auto
    with True show ?thesis by simp
  next
    case False
    then obtain m where m: "min (nat (n - int (length acc))) (nat (MaximumTaints env - int i)) = Suc m"
      by (cases "min (nat (n - int (length acc))) (nat (MaximumTaints env - int i))") auto
    with False have m': "min (nat (n - int (length (acc @ [index b])))) (nat (MaximumTaints env - int (Suc i))) = m"
      by auto
    let ?ng = "ng\<lparr>taintTracker := taintTracker ng @ [Name (node b)]\<rparr>"
    from Cons.prems have "dryMode c ?ng" by simp
    from Cons.IH[OF this, of "Suc i" "acc @ [index b]"] False Cons.prems
    show ?thesis
      unfolding m m' by (simp add: call_def logln_def)
  qed
qed

text \<open>
  Claim C5. With dry mode on, \<^verbatim>\<open>taintOldestN\<close> (when the capacity \<open>n\<close> is one the
  runtime grants; it panics before doing anything otherwise) examines the first
  \<open>min n MaximumTaints\<close> candidates of the ranking and for each of them appends the
  node's name to the tracker of the group, bumps the dry-run counter once and returns the
  index the bundle carries. These bumps are the only calls made: no taint request is
  issued.
\<close>

theorem taintOldestN_dry_mode:
  assumes "dryMode c ng"
  shows "taintOldestN env c nodes ng n w =
     (if n < 0 \<or> MaxSliceCap env < n then Panic w
      else Return
        (map index (take (nat (min n (MaximumTaints env))) (ranking env nodes)),
         ng\<lparr>taintTracker := taintTracker ng
              @ map (\<lambda>b. Name (node b)) (take (nat (min n (MaximumTaints env))) (ranking env nodes))\<rparr>,
         w\<lparr>calls := calls w
              @ replicate (length (take (nat (min n (MaximumTaints env))) (ranking env nodes)))
                  IncrementTaintCountCall,
           logs := logs w
              @ map (\<lambda>b. LogTainting True (Name (node b)))
                  (take (nat (min n (MaximumTaints env))) (ranking env nodes))\<rparr>))"
proof -
  have "min (nat (n - int (length ([]::nat list)))) (nat (MaximumTaints env - int 0))
      = nat (min n (MaximumTaints env))"
    by auto
  with taintLoop_dry[OF assms, of env n "ranking env nodes" 0 "[]" w] show ?thesis
    by (simp add: taintOldestN_def)
qed

theorem taintOldestN_dry_mode_witness:
  "dryMode sampleController dryGroup
   \<and> taintOldestN sampleEnv sampleController [nodeA, nodeB, nodeC] dryGroup 2 emptyWorld
       = Return ([1, 2], dryGroup\<lparr>taintTracker := [''b'', ''c'']\<rparr>,
          \<lparr>calls = [IncrementTaintCountCall, IncrementTaintCountCall],
           logs = [LogTainting True ''b'', LogTainting True ''c'']\<rparr>)
   \<and> taintOldestN sampleEnv sampleController [nodeA, nodeB, nodeC] dryGroup (- 1) emptyWorld
       = Panic emptyWorld"
proof -
  have d: "dryMode sampleController dryGroup"
    by (simp add: dryMode_def sample_defs)
  from taintOldestN_dry_mode[OF d, where env = sampleEnv and nodes = "[nodeA, nodeB, nodeC]"
      and n = 2 and w = emptyWorld]
    taintOldestN_dry_mode[OF d, where env = sampleEnv and nodes = "[nodeA, nodeB, nodeC]"
      and n = "- 1" and w = emptyWorld] d
  show ?thesis
    by (simp add: ranking_def sample_defs)
qed

subsection \<open>The ranking\<close>

lemma bundleFrom_index: "map index (bundleFrom i nodes) = [i..<i + length nodes]"
  by (induction nodes arbitrary: i) (auto simp: upt_rec)

lemma bundleFrom_node: "map node (bundleFrom i nodes) = nodes"
  by (induction nodes arbitrary: i) auto

lemma bundleFrom_member:
  "b \<in> set (bundleFrom i nodes) \<Longrightarrow>
     i \<le> index b \<and> index b < i + length nodes \<and> nodes ! (index b - i) = node b"
proof (induction nodes arbitrary: i)
  case Nil
  then show ?case by simp
next
  case (Cons nd nodes)
  show ?case
  proof (cases "b = \<lparr>node = nd, index = i\<rparr>")
    case True
    then show ?thesis by simp
  next
    case False
    with Cons.prems have "b \<in> set (bundleFrom (Suc i) nodes)" by simp
    from Cons.IH[OF this] show ?thesis
      by (auto simp: nth_Cons' Suc_diff_le)
  qed
qed

lemma taintLoop_marked:
  "\<exists>marked. subseq marked bs \<and> fst (taintLoop env c n bs i acc ng w) = acc @ map index marked"
proof (induction bs arbitrary: i acc ng w)
  case Nil
  show ?case by simp
next
  case (Cons b rest)
  show ?case
  proof (cases "n \<le> int (length acc) \<or> MaximumTaints env \<le> int i")
    case True
    then show ?thesis
      by (intro exI[of _ "[]"]) auto
  next
    case stop: False
    show ?thesis
    proof (cases "dryMode c ng")
      case True
      from Cons.IH[of "Suc i" "acc @ [index b]"
          "ng\<lparr>taintTracker := taintTracker ng @ [Name (node b)]\<rparr>"
          "logln (LogTainting True (Name (node b))) (call IncrementTaintCountCall w)"]
      obtain marked where "subseq marked rest"
        "fst (taintLoop env c n rest (Suc i) (acc @ [index b])
           (ng\<lparr>taintTracker := taintTracker ng @ [Name (node b)]\<rparr>)
           (logln (LogTainting True (Name (node b))) (call IncrementTaintCountCall w)))
         = (acc @ [index b]) @ map index marked"
        by blast
      with stop True show ?thesis
        by (intro exI[of _ "b # marked"]) auto
    next
      case False
      let ?w1 = "logln (LogTainting False (Name (node b))) w"
      let ?w2 = "call (AddToBeRemovedTaintCall (node b)) ?w1"
      show ?thesis
      proof (cases "AddToBeRemovedTaint env (calls ?w1) (node b)")
        case (Inl err)
        from Cons.IH[of "Suc i" acc ng "logln (LogWhileTainting (Name (node b)) err) ?w2"]
        obtain marked where "subseq marked rest"
          "fst (taintLoop env c n rest (Suc i) acc ng
             (logln (LogWhileTainting (Name (node b)) err) ?w2)) = acc @ map index marked"
          by blast
        with stop False Inl show ?thesis
          by (intro exI[of _ marked]) auto
      next
        case (Inr updatedNode)
        from Cons.IH[of "Suc i" "acc @ [index b]" ng ?w2]
        obtain marked where "subseq marked rest"
          "fst (taintLoop env c n rest (Suc i) (acc @ [index b]) ng ?w2)
             = (acc @ [index b]) @ map index marked"
          by blast
        with stop False Inr show ?thesis
          by (intro exI[of _ "b # marked"]) auto
      qed
    qed
  qed
qed

lemma sortsByLess_sort_key:
  "sortsByLess (sort_key (\<lambda>b. CreationTimestamp (node b))) bs"
proof -
  have "sorted (map (\<lambda>b. CreationTimestamp (node b))
          (sort_key (\<lambda>b. CreationTimestamp (node b)) bs))"
    by (rule sorted_sort_key)
  then show ?thesis
    by (simp add: sortsByLess_def sorted_map Less_def not_less)
qed

text \<open>
  Claim C9. When \<^verbatim>\<open>sort.Sort\<close> keeps its promise on the bundles, the ranking is
  ordered by creation timestamp, oldest first; every entry still carries the position its
  node has in the input, the positions and the nodes of the ranking are those of the
  input, and the indices \<^verbatim>\<open>taintOldestN\<close> returns are those of the marked entries,
  so that looking them up in the input gives the marked nodes.
\<close>

theorem ranking_oldest_first_keeps_indices:
  assumes "sortsByLess (sortSort env) (bundleFrom 0 nodes)"
  shows "sorted_wrt (\<lambda>a b. CreationTimestamp (node a) \<le> CreationTimestamp (node b))
           (ranking env nodes)
    \<and> (\<forall>b \<in> set (ranking env nodes). index b < length nodes \<and> nodes ! index b = node b)
    \<and> mset (map index (ranking env nodes)) = mset [0..<length nodes]
    \<and> mset (map node (ranking env nodes)) = mset nodes
    \<and> (\<forall>tainted ng' w'. taintOldestN env c nodes ng n w = Return (tainted, ng', w') \<longrightarrow>
          (\<exists>marked. subseq marked (ranking env nodes)
             \<and> tainted = map index marked
             \<and> map (\<lambda>i. nodes ! i) tainted = map node marked))"
proof -
  from assms have perm: "mset (ranking env nodes) = mset (bundleFrom 0 nodes)"
    and srt: "sorted_wrt (\<lambda>a b. \<not> Less b a) (ranking env nodes)"
    by (simp_all add: sortsByLess_def ranking_def)
  from srt have 1: "sorted_wrt (\<lambda>a b. CreationTimestamp (node a) \<le> CreationTimestamp (node b))
           (ranking env nodes)"
    by (simp add: Less_def not_less)
  from perm have "set (ranking env nodes) = set (bundleFrom 0 nodes)"
    by (rule mset_eq_setD)
  then have 2: "\<forall>b \<in> set (ranking env nodes). index b < length nodes \<and> nodes ! index b = node b"
    using bundleFrom_member[of _ 0 nodes] by auto
  have "mset (map index (ranking env nodes)) = image_mset index (mset (bundleFrom 0 nodes))"
    using perm by (metis mset_map)
  then have 3: "mset (map index (ranking env nodes)) = mset [0..<length nodes]"
    using bundleFrom_index[of 0 nodes] by (metis mset_map add_0)
  have "mset (map node (ranking env nodes)) = image_mset node (mset (bundleFrom 0 nodes))"
    using perm by (metis mset_map)
  then have 4: "mset (map node (ranking env nodes)) = mset nodes"
    using bundleFrom_node[of 0 nodes] by (metis mset_map)
  have 5: "\<forall>tainted ng' w'. taintOldestN env c nodes ng n w = Return (tainted, ng', w') \<longrightarrow>
          (\<exists>marked. subseq marked (ranking env nodes)
             \<and> tainted = map index marked
             \<and> map (\<lambda>i. nodes ! i) tainted = map node marked)"
  proof (intro allI impI)
    fix tainted ng' w'
    assume "taintOldestN env c nodes ng n w = Return (tainted, ng', w')"
    then have t: "tainted = fst (taintLoop env c n (ranking env nodes) 0 [] ng w)"
      by (auto simp: taintOldestN_def split: if_splits)
    from taintLoop_marked[of "ranking env nodes" env c n 0 "[]" ng w] t
    obtain marked where m: "subseq marked (ranking env nodes)" "tainted = map index marked"
      by auto
    from m(1) have "set marked \<subseteq> set (ranking env nodes)"
      by (auto elim: list_emb_set)
    with 2 have "map (\<lambda>i. nodes ! i) (map index marked) = map node marked"
      by auto
    with m show "\<exists>marked. subseq marked (ranking env nodes)
             \<and> tainted = map index marked
             \<and> map (\<lambda>i. nodes ! i) tainted = map node marked"
      by auto
  qed
  from 1 2 3 4 5 show ?thesis by blast
qed

theorem ranking_oldest_first_keeps_indices_witness:
  "sortsByLess (sortSort sampleEnv) (bundleFrom 0 [nodeA, nodeB, nodeC])
   \<and> ranking sampleEnv [nodeA, nodeB, nodeC]
       = [\<lparr>node = nodeB, index = 1\<rparr>, \<lparr>node = nodeC, index = 2\<rparr>, \<lparr>node = nodeA, index = 0\<rparr>]
   \<and> taintOldestN sampleEnv sampleController [nodeA, nodeB, nodeC] sampleGroup 1 emptyWorld
       = Return ([2], sampleGroup,
          \<lparr>calls = [AddToBeRemovedTaintCall nodeB, AddToBeRemovedTaintCall nodeC],
           logs = [LogTainting False ''b'', LogWhileTainting ''b'' (ExternalError ''conflict''),
                   LogTainting False ''c'']\<rparr>)
   \<and> [nodeA, nodeB, nodeC] ! 2 = nodeC"
proof -
  have s: "sortsByLess (sortSort sampleEnv) (bundleFrom 0 [nodeA, nodeB, nodeC])"
    using sortsByLess_sort_key[of "bundleFrom 0 [nodeA, nodeB, nodeC]"]
    by (simp add: sampleEnv_def)
  from ranking_oldest_first_keeps_indices[OF s, of sampleController sampleGroup 1 emptyWorld] s
  show ?thesis
    by (simp add: taintOldestN_def ranking_def dryMode_def call_def logln_def sample_defs)
qed

subsection \<open>The reaper\<close>

text \<open>
  The loop of the reaper against the reaper of the specification: same batch, same calls,
  and a line about cordoning for each node treated as eligible and for no other.
\<close>

lemma reapLoop_spec:
  "reaperSpec env (dryMode c (nodeGroup opts)) opts candidates (calls w) = (eligible, batch, cs) \<Longrightarrow>
   fst (reapLoop env c opts candidates toBeDeleted w) = toBeDeleted @ batch
   \<and> calls (snd (reapLoop env c opts candidates toBeDeleted w)) = cs
   \<and> filter isCordoning (logs (snd (reapLoop env c opts candidates toBeDeleted w)))
       = filter isCordoning (logs w)
         @ map (\<lambda>nd. LogCordoning (dryMode c (nodeGroup opts)) (Name nd)) eligible"
proof (induction candidates arbitrary: toBeDeleted w eligible batch cs)
  case Nil
  then show ?case by simp
next
  case (Cons candidate rest)
  obtain tbd w1 where s: "reapStep env c opts candidate toBeDeleted w = (tbd, w1)"
    by (cases "reapStep env c opts candidate toBeDeleted w")
  obtain el1 b1 cs1 where
    r: "reaperSpec env (dryMode c (nodeGroup opts)) opts rest (calls w1) = (el1, b1, cs1)"
    by (cases "reaperSpec env (dryMode c (nodeGroup opts)) opts rest (calls w1)")
  from Cons.IH[OF r, of tbd] have ih:
    "fst (reapLoop env c opts rest tbd w1) = tbd @ b1"
    "calls (snd (reapLoop env c opts rest tbd w1)) = cs1"
    "filter isCordoning (logs (snd (reapLoop env c opts rest tbd w1)))
       = filter isCordoning (logs w1)
         @ map (\<lambda>nd. LogCordoning (dryMode c (nodeGroup opts)) (Name nd)) el1"
    by simp_all
  from s r Cons.prems have
    "tbd @ b1 = toBeDeleted @ batch \<and> cs1 = cs
     \<and> filter isCordoning (logs w1)
         @ map (\<lambda>nd. LogCordoning (dryMode c (nodeGroup opts)) (Name nd)) el1
       = filter isCordoning (logs w)
         @ map (\<lambda>nd. LogCordoning (dryMode c (nodeGroup opts)) (Name nd)) eligible"
    by (auto simp: reapStep_def cordonAndAccumulate_def eligibleForDeletion_def Let_def
        split: prod.splits option.splits sum.splits if_splits)
  with ih s show ?case
    by simp
qed


text \<open>
  Claim C3. \<^verbatim>\<open>TryRemoveTaintedNodes\<close> does what the reaper of the specification does,
  for every list of tainted nodes: a node whose removal time can be read is treated as
  eligible exactly as the grace periods say (not while \<open>T \<le> S\<close>; while
  \<open>S < T \<le> H\<close> only if it is empty; always once \<open>T > H\<close>), with \<open>T\<close> what
  \<^verbatim>\<open>now.Sub\<close> computes at the moment the node is looked at. The nodes treated as
  eligible are those the log announces; in real mode they are the ones cordoned, those
  cordoned with success form the batch handed to \<^verbatim>\<open>DeleteNodes\<close>, and the count
  returned is the size of that batch. For a single readable node the second part spells
  the verdict out. The statement needs no order between \<open>S\<close> and \<open>H\<close>.
\<close>

theorem TryRemoveTaintedNodes_grace_periods:
  assumes "reaperSpec env (dryMode c (nodeGroup opts)) opts (taintedNodes opts) (calls w)
             = (eligible, batch, cs)"
  shows "(\<exists>w'. TryRemoveTaintedNodes env c opts w = (int (length batch), None, w')
            \<and> calls w' = cs @ [DeleteNodesCall batch]
            \<and> filter isCordoning (logs w')
                = filter isCordoning (logs w)
                  @ map (\<lambda>nd. LogCordoning (dryMode c (nodeGroup opts)) (Name nd)) eligible)
    \<and> (taintedNodes opts = [candidate] \<and> GetToBeRemovedTime env candidate = (Some t, None)
          \<longrightarrow> eligible
                = (if eligibleForDeletion (timeSub (timeNow env (calls w)) t)
                        (SoftDeleteGracePeriodDuration (Opts (nodeGroup opts)))
                        (HardDeleteGracePeriodDuration (Opts (nodeGroup opts)))
                        (NodeEmpty env candidate (NodeInfos (nodeGroup opts)))
                   then [candidate] else []))"
proof -
  obtain tbd w1 where l: "reapLoop env c opts (taintedNodes opts) [] w = (tbd, w1)"
    by (cases "reapLoop env c opts (taintedNodes opts) [] w")
  with reapLoop_spec[OF assms, of "[]"]
  have "tbd = batch" "calls w1 = cs"
    "filter isCordoning (logs w1)
       = filter isCordoning (logs w)
         @ map (\<lambda>nd. LogCordoning (dryMode c (nodeGroup opts)) (Name nd)) eligible"
    by simp_all
  with l have 1: "\<exists>w'. TryRemoveTaintedNodes env c opts w = (int (length batch), None, w')
            \<and> calls w' = cs @ [DeleteNodesCall batch]
            \<and> filter isCordoning (logs w')
                = filter isCordoning (logs w)
                  @ map (\<lambda>nd. LogCordoning (dryMode c (nodeGroup opts)) (Name nd)) eligible"
    by (simp add: TryRemoveTaintedNodes_def Let_def split: option.splits)
  have 2: "taintedNodes opts = [candidate] \<and> GetToBeRemovedTime env candidate = (Some t, None)
          \<longrightarrow> eligible
                = (if eligibleForDeletion (timeSub (timeNow env (calls w)) t)
                        (SoftDeleteGracePeriodDuration (Opts (nodeGroup opts)))
                        (HardDeleteGracePeriodDuration (Opts (nodeGroup opts)))
                        (NodeEmpty env candidate (NodeInfos (nodeGroup opts)))
                   then [candidate] else [])"
    using assms by (auto split: if_splits)
  from 1 2 show ?thesis by blast
qed

theorem TryRemoveTaintedNodes_grace_periods_witness:
  "reaperSpec graceEnv (dryMode sampleController (nodeGroup graceOpts)) graceOpts
      (taintedNodes graceOpts) (calls emptyWorld)
     = ([nodeT2, nodeT3], [nodeT2, nodeT3],
        [TimeNow, TimeNow, CordonCall nodeT2, TimeNow, TimeNow, CordonCall nodeT3])
   \<and> TryRemoveTaintedNodes graceEnv sampleController graceOpts emptyWorld
     = (2, None,
        \<lparr>calls = [TimeNow, TimeNow, CordonCall nodeT2, TimeNow, TimeNow, CordonCall nodeT3,
                  DeleteNodesCall [nodeT2, nodeT3]],
         logs = [LogNotReadyYet ''t1'' 50, LogCordoning False ''t2'', LogNotReady ''t5'',
                 LogCordoning False ''t3'',
                 LogUnableToGetTaintedTime (Some (ExternalError ''no taint'')) ''t4'',
                 LogSentDelete 2]\<rparr>)
   \<and> eligibleForDeletion 50 100 500 False = False
   \<and> eligibleForDeletion 200 100 500 True = True
   \<and> eligibleForDeletion 300 100 500 False = False
   \<and> eligibleForDeletion 900 100 500 False = True"
proof -
  have r: "reaperSpec graceEnv (dryMode sampleController (nodeGroup graceOpts)) graceOpts
      (taintedNodes graceOpts) (calls emptyWorld)
     = ([nodeT2, nodeT3], [nodeT2, nodeT3],
        [TimeNow, TimeNow, CordonCall nodeT2, TimeNow, TimeNow, CordonCall nodeT3])"
    by (simp add: eligibleForDeletion_def dryMode_def timeSub_def maxDuration_def
        minDuration_def sample_defs)
  from TryRemoveTaintedNodes_grace_periods[OF r, where candidate = nodeT1 and t = 0] r
  show ?thesis
    by (simp add: Let_def TryRemoveTaintedNodes_def reapStep_def cordonAndAccumulate_def
        eligibleForDeletion_def dryMode_def call_def logln_def timeSub_def maxDuration_def
        minDuration_def goSub_def int64_def sample_defs)
qed

lemma reapStep_dry:
  "dryMode c (nodeGroup opts) \<Longrightarrow>
   fst (reapStep env c opts candidate toBeDeleted w) = toBeDeleted
   \<and> calls (snd (reapStep env c opts candidate toBeDeleted w))
       = calls w @ (if readable env candidate then [TimeNow] else [])"
  by (auto simp: reapStep_def cordonAndAccumulate_def readable_def Let_def
      split: prod.splits option.splits)

lemma reapLoop_dry:
  "dryMode c (nodeGroup opts) \<Longrightarrow>
   fst (reapLoop env c opts candidates toBeDeleted w) = toBeDeleted
   \<and> calls (snd (reapLoop env c opts candidates toBeDeleted w))
       = calls w @ replicate (length (filter (readable env) candidates)) TimeNow"
proof (induction candidates arbitrary: toBeDeleted w)
  case Nil
  then show ?case by simp
next
  case (Cons candidate rest)
  obtain tbd w1 where s: "reapStep env c opts candidate toBeDeleted w = (tbd, w1)"
    by (cases "reapStep env c opts candidate toBeDeleted w")
  with reapStep_dry[OF Cons.prems, of env candidate toBeDeleted w]
  have "tbd = toBeDeleted"
    "calls w1 = calls w @ (if readable env candidate then [TimeNow] else [])"
    by simp_all
  with Cons.IH[OF Cons.prems, of tbd w1] s show ?case
    by (simp add: replicate_app_Cons_same)
qed

text \<open>
  Claim C6. With dry mode on, the block for a node that is ready writes its log line and
  nothing else: the node is not cordoned and does not join the batch. The batch the loop
  hands over is empty, \<^verbatim>\<open>TryRemoveTaintedNodes\<close> returns the count zero, and the calls
  it makes are the clock readings and one delete request for no node at all.
\<close>

theorem reaper_dry_mode:
  assumes "dryMode c (nodeGroup opts)"
  shows "cordonAndAccumulate env c opts candidate toBeDeleted w
           = (toBeDeleted, logln (LogCordoning True (Name candidate)) w)
    \<and> fst (reapLoop env c opts (taintedNodes opts) [] w) = []
    \<and> fst (TryRemoveTaintedNodes env c opts w) = 0
    \<and> calls (snd (snd (TryRemoveTaintedNodes env c opts w)))
        = calls w @ replicate (length (filter (readable env) (taintedNodes opts))) TimeNow
            @ [DeleteNodesCall []]"
proof -
  from assms have 1: "cordonAndAccumulate env c opts candidate toBeDeleted w
           = (toBeDeleted, logln (LogCordoning True (Name candidate)) w)"
    by (simp add: cordonAndAccumulate_def)
  obtain tbd w1 where l: "reapLoop env c opts (taintedNodes opts) [] w = (tbd, w1)"
    by (cases "reapLoop env c opts (taintedNodes opts) [] w")
  with reapLoop_dry[OF assms, of env "taintedNodes opts" "[]" w]
  have 2: "tbd = []"
    "calls w1 = calls w @ replicate (length (filter (readable env) (taintedNodes opts))) TimeNow"
    by simp_all
  from l 2 have 3: "fst (TryRemoveTaintedNodes env c opts w) = 0"
    "calls (snd (snd (TryRemoveTaintedNodes env c opts w)))
        = calls w @ replicate (length (filter (readable env) (taintedNodes opts))) TimeNow
            @ [DeleteNodesCall []]"
    by (simp_all add: TryRemoveTaintedNodes_def Let_def split: option.splits)
  from 1 l 2 3 show ?thesis by simp
qed

theorem reaper_dry_mode_witness:
  "dryMode sampleController (nodeGroup (sampleOpts\<lparr>nodeGroup := dryGroup\<rparr>))
   \<and> TryRemoveTaintedNodes sampleEnv sampleController (sampleOpts\<lparr>nodeGroup := dryGroup\<rparr>) emptyWorld
       = (0, None,
          \<lparr>calls = [TimeNow, TimeNow, TimeNow, DeleteNodesCall []],
           logs = [LogNotReadyYet ''t1'' 50, LogCordoning True ''t2'', LogCordoning True ''t3'',
                   LogUnableToGetTaintedTime (Some (ExternalError ''no taint'')) ''t4'',
                   LogSentDelete 0]\<rparr>)
   \<and> length (filter (readable sampleEnv) (taintedNodes (sampleOpts\<lparr>nodeGroup := dryGroup\<rparr>))) = 3"
proof -
  have d: "dryMode sampleController (nodeGroup (sampleOpts\<lparr>nodeGroup := dryGroup\<rparr>))"
    by (simp add: dryMode_def sample_defs)
  from reaper_dry_mode[OF d, of sampleEnv nodeT2 "[]" emptyWorld] d
  show ?thesis
    by (simp add: TryRemoveTaintedNodes_def reapStep_def cordonAndAccumulate_def readable_def
        call_def logln_def timeSub_def maxDuration_def minDuration_def goSub_def int64_def
        sample_defs)
qed

text \<open>
  Claim C10. \<^verbatim>\<open>TryRemoveTaintedNodes\<close> returns no error, whatever the environment
  answers: its count is the size of the batch, and an error of \<^verbatim>\<open>DeleteNodes\<close> only
  adds a log line. So \<^verbatim>\<open>ScaleDown\<close> goes from the reaper to the tainter with the info
  line alone, never with the warning.
\<close>

theorem reaper_returns_no_error:
  "fst (snd (TryRemoveTaintedNodes env c opts w)) = None
   \<and> fst (TryRemoveTaintedNodes env c opts w)
       = int (length (fst (reapLoop env c opts (taintedNodes opts) [] w)))
   \<and> logs (snd (snd (TryRemoveTaintedNodes env c opts w)))
       = logs (snd (reapLoop env c opts (taintedNodes opts) [] w))
         @ (case DeleteNodes env (calls (snd (reapLoop env c opts (taintedNodes opts) [] w)))
                  (fst (reapLoop env c opts (taintedNodes opts) [] w)) of
              Some e \<Rightarrow> [LogDeleteFailed e (fst (reapLoop env c opts (taintedNodes opts) [] w))]
            | None \<Rightarrow> [])
         @ [LogSentDelete (int (length (fst (reapLoop env c opts (taintedNodes opts) [] w))))]
   \<and> ScaleDown env c opts w
       = scaleDownTaint env c opts
           (logln (LogReaperDeleted (fst (TryRemoveTaintedNodes env c opts w)))
              (snd (snd (TryRemoveTaintedNodes env c opts w))))"
  by (simp add: TryRemoveTaintedNodes_def ScaleDown_def afterReaper_def Let_def
      split: prod.splits option.splits)

theorem reaper_returns_no_error_witness:
  "DeleteNodes brokenDeleteEnv
      [TimeNow, TimeNow, CordonCall nodeT2, TimeNow, CordonCall nodeT3] [nodeT2, nodeT3]
     = Some (ExternalError ''asg'')
   \<and> TryRemoveTaintedNodes brokenDeleteEnv sampleController sampleOpts emptyWorld
       = (2, None,
          \<lparr>calls = [TimeNow, TimeNow, CordonCall nodeT2, TimeNow, CordonCall nodeT3,
                    DeleteNodesCall [nodeT2, nodeT3]],
           logs = [LogNotReadyYet ''t1'' 50, LogCordoning False ''t2'', LogCordoning False ''t3'',
                   LogUnableToGetTaintedTime (Some (ExternalError ''no taint'')) ''t4'',
                   LogDeleteFailed (ExternalError ''asg'') [nodeT2, nodeT3],
                   LogSentDelete 2]\<rparr>)"
  using reaper_returns_no_error[of brokenDeleteEnv sampleController sampleOpts emptyWorld]
  by (simp add: Let_def TryRemoveTaintedNodes_def reapStep_def cordonAndAccumulate_def dryMode_def
      call_def logln_def timeSub_def maxDuration_def minDuration_def goSub_def int64_def
      sample_defs)

subsection \<open>The clamp and the fail-safe lock\<close>

lemma goSub_exact: "- (2 ^ 63) \<le> a - b \<Longrightarrow> a - b < 2 ^ 63 \<Longrightarrow> goSub a b = a - b"
  by (simp add: goSub_def int64_def)

lemma goSub_wrapped:
  assumes "2 ^ 63 \<le> a - b" and "a - b < 2 ^ 64"
  shows "goSub a b < 0"
proof -
  have e: "a - b + 2 ^ 63 = a - b - 2 ^ 63 + (2 ^ 64 :: int)"
    by simp
  have "(a - b + 2 ^ 63) mod 2 ^ 64 = (a - b - 2 ^ 63 + 2 ^ 64) mod (2 ^ 64 :: int)"
    by (subst e) (rule refl)
  also have "\<dots> = (a - b - 2 ^ 63) mod 2 ^ 64"
    by (rule mod_add_self2)
  also have "\<dots> = a - b - 2 ^ 63"
    using assms by simp
  finally show ?thesis
    using assms by (simp add: goSub_def int64_def)
qed

lemma scaleDownTaint_unfold:
  "scaleDownTaint env c opts w =
     (if belowMinimum opts
      then Return
             (0, Some (BelowMinimum (int (length (untaintedNodes opts)))
                         (MinNodes (Opts (nodeGroup opts)))),
              nodeGroup opts,
              logln (LogCancelling (BelowMinimum (int (length (untaintedNodes opts)))
                       (MinNodes (Opts (nodeGroup opts)))))
                (logln (LogAdjusting (MinNodes (Opts (nodeGroup opts)))
                   (goSub (int (length (untaintedNodes opts))) (MinNodes (Opts (nodeGroup opts)))))
                   w))
      else taintWithFailSafe env c opts (clampedNodesToRemove opts)
             (if goSub (int (length (untaintedNodes opts))) (nodesDelta opts)
                   < MinNodes (Opts (nodeGroup opts))
              then logln (LogAdjusting (MinNodes (Opts (nodeGroup opts)))
                     (goSub (int (length (untaintedNodes opts))) (MinNodes (Opts (nodeGroup opts))))) w
              else w))"
  by (simp add: scaleDownTaint_def belowMinimum_def clampedNodesToRemove_def Let_def)

lemma scaleDownTaint_continues:
  assumes "\<not> belowMinimum opts"
  shows "\<exists>w1. calls w1 = calls w
      \<and> scaleDownTaint env c opts w = taintWithFailSafe env c opts (clampedNodesToRemove opts) w1"
proof (intro exI conjI)
  show "scaleDownTaint env c opts w = taintWithFailSafe env c opts (clampedNodesToRemove opts)
      (if goSub (int (length (untaintedNodes opts))) (nodesDelta opts)
            < MinNodes (Opts (nodeGroup opts))
       then logln (LogAdjusting (MinNodes (Opts (nodeGroup opts)))
              (goSub (int (length (untaintedNodes opts))) (MinNodes (Opts (nodeGroup opts))))) w
       else w)"
    using assms by (simp add: scaleDownTaint_unfold)
  show "calls (if goSub (int (length (untaintedNodes opts))) (nodesDelta opts)
            < MinNodes (Opts (nodeGroup opts))
       then logln (LogAdjusting (MinNodes (Opts (nodeGroup opts)))
              (goSub (int (length (untaintedNodes opts))) (MinNodes (Opts (nodeGroup opts))))) w
       else w) = calls w"
    by simp
qed

lemma taintLoop_calls:
  "\<exists>new. calls (snd (snd (taintLoop env c n bs i acc ng w))) = calls w @ new"
proof -
  obtain idx ng' w' where r: "taintLoop env c n bs i acc ng w = (idx, ng', w')"
    by (cases "taintLoop env c n bs i acc ng w")
  from taintLoop_trace[OF r] r show ?thesis
    by auto
qed

lemma taintWithFailSafe_calls:
  "\<exists>rest. calls (worldOf (taintWithFailSafe env c opts n w))
     = calls w @ NodeGroupTaintEventAdd (GroupName (Opts (nodeGroup opts))) n
         # BeginTaintFailSafeCall n # rest"
proof (cases "BeginTaintFailSafe env
    (calls w @ [NodeGroupTaintEventAdd (GroupName (Opts (nodeGroup opts))) n]) n")
  case (Some err)
  then show ?thesis
    by (simp add: taintWithFailSafe_def Let_def)
next
  case None
  let ?w3 = "call (BeginTaintFailSafeCall n)
     (call (NodeGroupTaintEventAdd (GroupName (Opts (nodeGroup opts))) n)
        (logln (LogScalingDown (GroupName (Opts (nodeGroup opts))) n) w))"
  show ?thesis
  proof (cases "n < 0 \<or> MaxSliceCap env < n")
    case True
    with None show ?thesis
      by (simp add: taintWithFailSafe_def taintOldestN_def Let_def)
  next
    case False
    obtain tainted ng' w4 where
      t: "taintLoop env c n (ranking env (untaintedNodes opts)) 0 [] (nodeGroup opts) ?w3
            = (tainted, ng', w4)"
      by (cases "taintLoop env c n (ranking env (untaintedNodes opts)) 0 [] (nodeGroup opts) ?w3")
    from taintLoop_calls[of env c n "ranking env (untaintedNodes opts)" 0 "[]"
        "nodeGroup opts" ?w3] t
    obtain new where "calls w4 = calls ?w3 @ new"
      by auto
    with None False t show ?thesis
      by (simp add: taintWithFailSafe_def taintOldestN_def Let_def split: option.splits)
  qed
qed

lemma clamp_exact:
  assumes "isInt64 (MinNodes (Opts (nodeGroup opts)))"
    and "int (length (untaintedNodes opts)) < 2 ^ 63"
    and nonneg: "0 \<le> goSub (int (length (untaintedNodes opts))) (MinNodes (Opts (nodeGroup opts)))"
  shows "goSub (int (length (untaintedNodes opts))) (MinNodes (Opts (nodeGroup opts)))
      = int (length (untaintedNodes opts)) - MinNodes (Opts (nodeGroup opts))"
proof -
  have "int (length (untaintedNodes opts)) - MinNodes (Opts (nodeGroup opts)) < 2 ^ 63"
  proof (rule ccontr)
    assume "\<not> ?thesis"
    then have "2 ^ 63 \<le> int (length (untaintedNodes opts)) - MinNodes (Opts (nodeGroup opts))"
      by simp
    moreover from assms(1,2)
    have "int (length (untaintedNodes opts)) - MinNodes (Opts (nodeGroup opts)) < 2 ^ 64"
      by (simp add: isInt64_def)
    ultimately show False
      using goSub_wrapped nonneg by fastforce
  qed
  moreover from assms(1)
  have "- (2 ^ 63) \<le> int (length (untaintedNodes opts)) - MinNodes (Opts (nodeGroup opts))"
    by (simp add: isInt64_def)
  ultimately show ?thesis
    by (simp add: goSub_exact)
qed

lemma clamp_floor:
  assumes "isInt64 (nodesDelta opts)" and "isInt64 (MinNodes (Opts (nodeGroup opts)))"
    and "int (length (untaintedNodes opts)) < 2 ^ 63"
    and "\<not> belowMinimum opts"
  shows "MinNodes (Opts (nodeGroup opts))
           \<le> int (length (untaintedNodes opts)) - clampedNodesToRemove opts"
proof (cases "goSub (int (length (untaintedNodes opts))) (nodesDelta opts)
    < MinNodes (Opts (nodeGroup opts))")
  case True
  with assms(4) have nonneg:
    "0 \<le> goSub (int (length (untaintedNodes opts))) (MinNodes (Opts (nodeGroup opts)))"
    by (simp add: belowMinimum_def)
  from clamp_exact[OF assms(2,3) nonneg]
  have "goSub (int (length (untaintedNodes opts))) (MinNodes (Opts (nodeGroup opts)))
      = int (length (untaintedNodes opts)) - MinNodes (Opts (nodeGroup opts))" .
  with True show ?thesis
    by (simp add: clampedNodesToRemove_def)
next
  case False
  show ?thesis
  proof (cases "int (length (untaintedNodes opts)) - nodesDelta opts < 2 ^ 63")
    case True
    moreover from assms(1)
    have "- (2 ^ 63) \<le> int (length (untaintedNodes opts)) - nodesDelta opts"
      by (simp add: isInt64_def)
    ultimately have "goSub (int (length (untaintedNodes opts))) (nodesDelta opts)
        = int (length (untaintedNodes opts)) - nodesDelta opts"
      by (simp add: goSub_exact)
    with False show ?thesis
      by (simp add: clampedNodesToRemove_def)
  next
    case big: False
    with assms(2) have "MinNodes (Opts (nodeGroup opts))
        \<le> int (length (untaintedNodes opts)) - nodesDelta opts"
      by (simp add: isInt64_def)
    with False show ?thesis
      by (simp add: clampedNodesToRemove_def)
  qed
qed

lemma clamp_applies:
  assumes "isInt64 (nodesDelta opts)" and "isInt64 (MinNodes (Opts (nodeGroup opts)))"
    and "int (length (untaintedNodes opts)) - nodesDelta opts < MinNodes (Opts (nodeGroup opts))"
  shows "goSub (int (length (untaintedNodes opts))) (nodesDelta opts)
           < MinNodes (Opts (nodeGroup opts))"
proof -
  from assms have "- (2 ^ 63) \<le> int (length (untaintedNodes opts)) - nodesDelta opts"
    "int (length (untaintedNodes opts)) - nodesDelta opts < 2 ^ 63"
    by (simp_all add: isInt64_def)
  then have "goSub (int (length (untaintedNodes opts))) (nodesDelta opts)
      = int (length (untaintedNodes opts)) - nodesDelta opts"
    by (rule goSub_exact)
  with assms(3) show ?thesis by simp
qed

lemma clamp_negative:
  assumes "isInt64 (MinNodes (Opts (nodeGroup opts)))"
    and "int (length (untaintedNodes opts)) - MinNodes (Opts (nodeGroup opts)) < 0"
  shows "goSub (int (length (untaintedNodes opts))) (MinNodes (Opts (nodeGroup opts))) < 0"
proof -
  from assms have "- (2 ^ 63) \<le> int (length (untaintedNodes opts)) - MinNodes (Opts (nodeGroup opts))"
    "int (length (untaintedNodes opts)) - MinNodes (Opts (nodeGroup opts)) < 2 ^ 63"
    by (simp_all add: isInt64_def)
  then have "goSub (int (length (untaintedNodes opts))) (MinNodes (Opts (nodeGroup opts)))
      = int (length (untaintedNodes opts)) - MinNodes (Opts (nodeGroup opts))"
    by (rule goSub_exact)
  with assms(2) show ?thesis by simp
qed


text \<open>
  Claim C2. For options whose numbers are Go integers: when the request would leave
  fewer than \<open>MinNodes\<close> untainted nodes and there are fewer than \<open>MinNodes\<close> to begin
  with, \<^verbatim>\<open>scaleDownTaint\<close> gives up; when it gives up it returns zero and its error,
  leaves the node group alone and makes no call. Otherwise it goes on with the clamped
  count \<open>n\<close>, for which \<open>len - n \<ge> MinNodes\<close>, and which is \<open>len - MinNodes\<close> when
  the request would have broken the floor; the first calls are the metric and the
  reservation of \<open>n\<close>, before any taint. With five nodes, a minimum of four and three
  asked for, the count is one; with three nodes and a minimum of five, the function gives
  up for every request that is not negative.
\<close>

theorem scaleDownTaint_keeps_minimum:
  assumes "isInt64 (nodesDelta opts)" and "isInt64 (MinNodes (Opts (nodeGroup opts)))"
    and "int (length (untaintedNodes opts)) < 2 ^ 63"
  shows "let len = int (length (untaintedNodes opts));
             minNodes = MinNodes (Opts (nodeGroup opts));
             delta = nodesDelta opts;
             n = clampedNodesToRemove opts
         in (len - delta < minNodes \<and> len - minNodes < 0 \<longrightarrow> belowMinimum opts)
          \<and> (belowMinimum opts \<longrightarrow>
               (\<exists>w'. scaleDownTaint env c opts w
                        = Return (0, Some (BelowMinimum len minNodes), nodeGroup opts, w')
                     \<and> calls w' = calls w))
          \<and> (\<not> belowMinimum opts \<longrightarrow>
               minNodes \<le> len - n
               \<and> (len - delta < minNodes \<longrightarrow> n = len - minNodes)
               \<and> (\<exists>w1. calls w1 = calls w
                     \<and> scaleDownTaint env c opts w = taintWithFailSafe env c opts n w1)
               \<and> (\<exists>rest. calls (worldOf (scaleDownTaint env c opts w))
                     = calls w @ NodeGroupTaintEventAdd (GroupName (Opts (nodeGroup opts))) n
                         # BeginTaintFailSafeCall n # rest))
          \<and> (len = 5 \<and> minNodes = 4 \<and> delta = 3 \<longrightarrow> \<not> belowMinimum opts \<and> n = 1)
          \<and> (len = 3 \<and> minNodes = 5 \<and> 0 \<le> delta \<longrightarrow> belowMinimum opts)"
proof -
  let ?len = "int (length (untaintedNodes opts))"
  let ?min = "MinNodes (Opts (nodeGroup opts))"
  let ?delta = "nodesDelta opts"
  let ?n = "clampedNodesToRemove opts"
  have 1: "?len - ?delta < ?min \<and> ?len - ?min < 0 \<longrightarrow> belowMinimum opts"
    using clamp_applies[OF assms(1,2)] clamp_negative[OF assms(2)]
    by (simp add: belowMinimum_def)
  have 2: "belowMinimum opts \<longrightarrow>
      (\<exists>w'. scaleDownTaint env c opts w
              = Return (0, Some (BelowMinimum ?len ?min), nodeGroup opts, w')
           \<and> calls w' = calls w)"
    by (simp add: scaleDownTaint_unfold)
  have 3: "\<not> belowMinimum opts \<longrightarrow> ?min \<le> ?len - ?n"
    using clamp_floor[OF assms] by simp
  have 4: "\<not> belowMinimum opts \<longrightarrow> (?len - ?delta < ?min \<longrightarrow> ?n = ?len - ?min)"
  proof (intro impI)
    assume nb: "\<not> belowMinimum opts" and v: "?len - ?delta < ?min"
    from clamp_applies[OF assms(1,2) v] have cl: "goSub ?len ?delta < ?min" .
    then have n: "?n = goSub ?len ?min"
      by (simp add: clampedNodesToRemove_def)
    from nb cl have "0 \<le> goSub ?len ?min"
      by (simp add: belowMinimum_def)
    from clamp_exact[OF assms(2,3) this] have "goSub ?len ?min = ?len - ?min" .
    with n show "?n = ?len - ?min" by simp
  qed
  have 5: "\<not> belowMinimum opts \<longrightarrow>
      (\<exists>w1. calls w1 = calls w \<and> scaleDownTaint env c opts w = taintWithFailSafe env c opts ?n w1)"
    using scaleDownTaint_continues[of opts w env c] by simp
  have 6: "\<not> belowMinimum opts \<longrightarrow>
      (\<exists>rest. calls (worldOf (scaleDownTaint env c opts w))
         = calls w @ NodeGroupTaintEventAdd (GroupName (Opts (nodeGroup opts))) ?n
             # BeginTaintFailSafeCall ?n # rest)"
  proof
    assume "\<not> belowMinimum opts"
    with 5 obtain w1 where w1: "calls w1 = calls w"
      "scaleDownTaint env c opts w = taintWithFailSafe env c opts ?n w1"
      by blast
    from taintWithFailSafe_calls[of env c opts ?n w1] w1
    show "\<exists>rest. calls (worldOf (scaleDownTaint env c opts w))
         = calls w @ NodeGroupTaintEventAdd (GroupName (Opts (nodeGroup opts))) ?n
             # BeginTaintFailSafeCall ?n # rest"
      by simp
  qed
  have 7: "?len = 5 \<and> ?min = 4 \<and> ?delta = 3 \<longrightarrow> \<not> belowMinimum opts \<and> ?n = 1"
    by (simp add: belowMinimum_def clampedNodesToRemove_def goSub_def int64_def)
  have 8: "?len = 3 \<and> ?min = 5 \<and> 0 \<le> ?delta \<longrightarrow> belowMinimum opts"
  proof
    assume a: "?len = 3 \<and> ?min = 5 \<and> 0 \<le> ?delta"
    then have "?len - ?delta < ?min" "?len - ?min < 0"
      by simp_all
    with 1 show "belowMinimum opts" by simp
  qed
  from 1 2 3 4 5 6 7 8 show ?thesis
    unfolding Let_def by blast
qed

theorem scaleDownTaint_keeps_minimum_witness:
  "isInt64 (nodesDelta clampOpts) \<and> isInt64 (MinNodes (Opts (nodeGroup clampOpts)))
   \<and> int (length (untaintedNodes clampOpts)) < 2 ^ 63
   \<and> int (length (untaintedNodes clampOpts)) = 5
   \<and> MinNodes (Opts (nodeGroup clampOpts)) = 4 \<and> nodesDelta clampOpts = 3
   \<and> clampedNodesToRemove clampOpts = 1
   \<and> scaleDownTaint sampleEnv sampleController clampOpts emptyWorld
       = Return (1, None, nodeGroup clampOpts,
          \<lparr>calls = [NodeGroupTaintEventAdd ''workers'' 1, BeginTaintFailSafeCall 1,
                    AddToBeRemovedTaintCall nodeT1, EndTaintFailSafeCall 1],
           logs = [LogAdjusting 4 1, LogScalingDown ''workers'' 1, LogTainting False ''t1'',
                   LogTaintedTotal 1]\<rparr>)
   \<and> scaleDownTaint sampleEnv sampleController shortOpts emptyWorld
       = Return (0, Some (BelowMinimum 3 5), nodeGroup shortOpts,
          \<lparr>calls = [], logs = [LogAdjusting 5 (- 2), LogCancelling (BelowMinimum 3 5)]\<rparr>)"
proof -
  have h: "isInt64 (nodesDelta clampOpts)" "isInt64 (MinNodes (Opts (nodeGroup clampOpts)))"
    "int (length (untaintedNodes clampOpts)) < 2 ^ 63"
    by (simp_all add: isInt64_def sample_defs)
  have g: "isInt64 (nodesDelta shortOpts)" "isInt64 (MinNodes (Opts (nodeGroup shortOpts)))"
    "int (length (untaintedNodes shortOpts)) < 2 ^ 63"
    by (simp_all add: isInt64_def sample_defs)
  from scaleDownTaint_keeps_minimum[OF h, where env = sampleEnv and c = sampleController
      and w = emptyWorld]
    scaleDownTaint_keeps_minimum[OF g, where env = sampleEnv and c = sampleController
      and w = emptyWorld] h
  show ?thesis
    by (simp add: Let_def scaleDownTaint_def taintWithFailSafe_def taintOldestN_def ranking_def
        clampedNodesToRemove_def dryMode_def call_def logln_def goSub_def int64_def sample_defs)
qed

text \<open>
  Claim C4. When \<^verbatim>\<open>scaleDownTaint\<close> gets as far as the lock and
  \<^verbatim>\<open>BeginTaintFailSafe\<close> refuses, the function returns zero and that error. The calls
  of the cycle are the metric and the refused reservation: no taint request, no bump of
  the dry-run counter; the node group, tracker included, is as it was.
\<close>

theorem scaleDownTaint_lock_refused:
  assumes "\<not> belowMinimum opts"
    and "BeginTaintFailSafe env
           (calls w @ [NodeGroupTaintEventAdd (GroupName (Opts (nodeGroup opts)))
                         (clampedNodesToRemove opts)])
           (clampedNodesToRemove opts) = Some e"
  shows "\<exists>w'. scaleDownTaint env c opts w = Return (0, Some e, nodeGroup opts, w')
           \<and> calls w' = calls w
               @ [NodeGroupTaintEventAdd (GroupName (Opts (nodeGroup opts)))
                    (clampedNodesToRemove opts),
                  BeginTaintFailSafeCall (clampedNodesToRemove opts)]"
  using assms by (simp add: scaleDownTaint_unfold taintWithFailSafe_def Let_def)

theorem scaleDownTaint_lock_refused_witness:
  "\<not> belowMinimum refusedOpts
   \<and> clampedNodesToRemove refusedOpts = 12
   \<and> BeginTaintFailSafe sampleEnv
        (calls emptyWorld @ [NodeGroupTaintEventAdd (GroupName (Opts (nodeGroup refusedOpts)))
                               (clampedNodesToRemove refusedOpts)])
        (clampedNodesToRemove refusedOpts) = Some (ExternalError ''over the maximum'')
   \<and> scaleDownTaint sampleEnv sampleController refusedOpts emptyWorld
       = Return (0, Some (ExternalError ''over the maximum''), sampleGroup,
          \<lparr>calls = [NodeGroupTaintEventAdd ''workers'' 12, BeginTaintFailSafeCall 12],
           logs = [LogScalingDown ''workers'' 12,
                   LogLockFailed (ExternalError ''over the maximum'')]\<rparr>)"
proof -
  have n: "clampedNodesToRemove refusedOpts = 12"
    by (simp add: clampedNodesToRemove_def goSub_def int64_def sample_defs)
  have b: "\<not> belowMinimum refusedOpts"
    by (simp add: belowMinimum_def goSub_def int64_def sample_defs)
  have r: "BeginTaintFailSafe sampleEnv
        (calls emptyWorld @ [NodeGroupTaintEventAdd (GroupName (Opts (nodeGroup refusedOpts)))
                               (clampedNodesToRemove refusedOpts)])
        (clampedNodesToRemove refusedOpts) = Some (ExternalError ''over the maximum'')"
    unfolding n by (simp add: sample_defs)
  from scaleDownTaint_lock_refused[OF b r, where c = sampleController] n b r
  show ?thesis
    by (simp add: Let_def scaleDownTaint_def taintWithFailSafe_def goSub_def int64_def call_def
        logln_def sample_defs)
qed

text \<open>The tainting loop reads the calls of the world it starts in, never its log.\<close>

lemma taintLoop_calls_only:
  "calls w2 = calls w \<Longrightarrow>
   fst (taintLoop env c n bs i acc ng w2) = fst (taintLoop env c n bs i acc ng w)
   \<and> fst (snd (taintLoop env c n bs i acc ng w2)) = fst (snd (taintLoop env c n bs i acc ng w))
   \<and> calls (snd (snd (taintLoop env c n bs i acc ng w2)))
       = calls (snd (snd (taintLoop env c n bs i acc ng w)))"
proof (induction bs arbitrary: i acc ng w w2)
  case Nil
  then show ?case by simp
next
  case (Cons b rest)
  show ?case
  proof (cases "n \<le> int (length acc) \<or> MaximumTaints env \<le> int i")
    case True
    with Cons.prems show ?thesis by auto
  next
    case stop: False
    show ?thesis
    proof (cases "dryMode c ng")
      case True
      have "calls (logln (LogTainting True (Name (node b))) (call IncrementTaintCountCall w2))
          = calls (logln (LogTainting True (Name (node b))) (call IncrementTaintCountCall w))"
        using Cons.prems by simp
      from Cons.IH[OF this] stop True show ?thesis
        by simp
    next
      case False
      let ?w1 = "logln (LogTainting False (Name (node b))) w"
      let ?v1 = "logln (LogTainting False (Name (node b))) w2"
      from Cons.prems have same: "calls ?v1 = calls ?w1" by simp
      show ?thesis
      proof (cases "AddToBeRemovedTaint env (calls ?w1) (node b)")
        case (Inl err)
        have "calls (logln (LogWhileTainting (Name (node b)) err)
                  (call (AddToBeRemovedTaintCall (node b)) ?v1))
            = calls (logln (LogWhileTainting (Name (node b)) err)
                  (call (AddToBeRemovedTaintCall (node b)) ?w1))"
          using same by simp
        from Cons.IH[OF this] stop False Inl Cons.prems show ?thesis
          by simp
      next
        case (Inr updatedNode)
        have "calls (call (AddToBeRemovedTaintCall (node b)) ?v1)
            = calls (call (AddToBeRemovedTaintCall (node b)) ?w1)"
          using same by simp
        from Cons.IH[OF this] stop False Inr Cons.prems show ?thesis
          by simp
      qed
    qed
  qed
qed

text \<open>
  Claim C7. When the lock was granted, the loop tainted the nodes \<open>tainted\<close> and
  \<^verbatim>\<open>EndTaintFailSafe\<close> then reports an error, \<^verbatim>\<open>scaleDownTaint\<close> returns the number of
  nodes tainted together with that error. The calls of the loop stay in the history,
  followed by the validation alone, and the node group is the one the loop left: nothing
  is taken back.
\<close>

theorem scaleDownTaint_mismatch_keeps_taints:
  assumes "\<not> belowMinimum opts"
    and "BeginTaintFailSafe env
           (calls w @ [NodeGroupTaintEventAdd (GroupName (Opts (nodeGroup opts)))
                         (clampedNodesToRemove opts)])
           (clampedNodesToRemove opts) = None"
    and "calls w3 = calls w
           @ [NodeGroupTaintEventAdd (GroupName (Opts (nodeGroup opts))) (clampedNodesToRemove opts),
              BeginTaintFailSafeCall (clampedNodesToRemove opts)]"
    and "taintOldestN env c (untaintedNodes opts) (nodeGroup opts) (clampedNodesToRemove opts) w3
           = Return (tainted, ng', w4)"
    and "EndTaintFailSafe env (calls w4) (int (length tainted)) = Some e"
  shows "\<exists>w'. scaleDownTaint env c opts w = Return (int (length tainted), Some e, ng', w')
           \<and> calls w' = calls w4 @ [EndTaintFailSafeCall (int (length tainted))]"
proof -
  let ?n = "clampedNodesToRemove opts"
  let ?name = "GroupName (Opts (nodeGroup opts))"
  from assms(1) have "\<exists>w1. calls w1 = calls w
      \<and> scaleDownTaint env c opts w = taintWithFailSafe env c opts ?n w1"
    by (rule scaleDownTaint_continues)
  then obtain w1 where w1: "calls w1 = calls w"
    "scaleDownTaint env c opts w = taintWithFailSafe env c opts ?n w1"
    by blast
  let ?v3 = "call (BeginTaintFailSafeCall ?n)
     (call (NodeGroupTaintEventAdd ?name ?n) (logln (LogScalingDown ?name ?n) w1))"
  have same: "calls ?v3 = calls w3"
    using w1(1) assms(3) by simp
  from assms(4) have cap: "\<not> (?n < 0 \<or> MaxSliceCap env < ?n)"
    and loop: "taintLoop env c ?n (ranking env (untaintedNodes opts)) 0 [] (nodeGroup opts) w3
        = (tainted, ng', w4)"
    by (simp_all add: taintOldestN_def split: if_splits)
  obtain tainted2 ng2 v4 where
    run: "taintLoop env c ?n (ranking env (untaintedNodes opts)) 0 [] (nodeGroup opts) ?v3
        = (tainted2, ng2, v4)"
    by (cases "taintLoop env c ?n (ranking env (untaintedNodes opts)) 0 [] (nodeGroup opts) ?v3")
  from taintLoop_calls_only[OF same, of env c ?n "ranking env (untaintedNodes opts)" 0 "[]"
      "nodeGroup opts"] run loop
  have eq: "tainted2 = tainted" "ng2 = ng'" "calls v4 = calls w4"
    by simp_all
  from cap run have oldest:
    "taintOldestN env c (untaintedNodes opts) (nodeGroup opts) ?n ?v3 = Return (tainted2, ng2, v4)"
    by (simp add: taintOldestN_def)
  from assms(2) w1(1)
  have "BeginTaintFailSafe env
      (calls (call (NodeGroupTaintEventAdd ?name ?n) (logln (LogScalingDown ?name ?n) w1))) ?n = None"
    by simp
  with oldest eq assms(5) have "taintWithFailSafe env c opts ?n w1
      = Return (int (length tainted), Some e, ng',
         logln (LogValidateFailed e) (call (EndTaintFailSafeCall (int (length tainted))) v4))"
    by (simp add: taintWithFailSafe_def Let_def)
  with w1(2) eq(3) show ?thesis
    by simp
qed

theorem scaleDownTaint_mismatch_keeps_taints_witness:
  "\<not> belowMinimum mismatchOpts
   \<and> clampedNodesToRemove mismatchOpts = 3
   \<and> BeginTaintFailSafe sampleEnv [NodeGroupTaintEventAdd ''workers'' 3] 3 = None
   \<and> taintOldestN sampleEnv sampleController (untaintedNodes mismatchOpts)
        (nodeGroup mismatchOpts) 3
        \<lparr>calls = [NodeGroupTaintEventAdd ''workers'' 3, BeginTaintFailSafeCall 3], logs = []\<rparr>
       = Return ([2, 0], nodeGroup mismatchOpts,
          \<lparr>calls = [NodeGroupTaintEventAdd ''workers'' 3, BeginTaintFailSafeCall 3,
                    AddToBeRemovedTaintCall nodeB, AddToBeRemovedTaintCall nodeC,
                    AddToBeRemovedTaintCall nodeA],
           logs = [LogTainting False ''b'', LogWhileTainting ''b'' (ExternalError ''conflict''),
                   LogTainting False ''c'', LogTainting False ''a'']\<rparr>)
   \<and> EndTaintFailSafe sampleEnv
        [NodeGroupTaintEventAdd ''workers'' 3, BeginTaintFailSafeCall 3,
         AddToBeRemovedTaintCall nodeB, AddToBeRemovedTaintCall nodeC,
         AddToBeRemovedTaintCall nodeA] 2 = Some (ExternalError ''mismatch'')
   \<and> scaleDownTaint sampleEnv sampleController mismatchOpts emptyWorld
       = Return (2, Some (ExternalError ''mismatch''), nodeGroup mismatchOpts,
          \<lparr>calls = [NodeGroupTaintEventAdd ''workers'' 3, BeginTaintFailSafeCall 3,
                    AddToBeRemovedTaintCall nodeB, AddToBeRemovedTaintCall nodeC,
                    AddToBeRemovedTaintCall nodeA, EndTaintFailSafeCall 2],
           logs = [LogScalingDown ''workers'' 3, LogTainting False ''b'',
                   LogWhileTainting ''b'' (ExternalError ''conflict''),
                   LogTainting False ''c'', LogTainting False ''a'',
                   LogValidateFailed (ExternalError ''mismatch'')]\<rparr>)"
proof -
  let ?w3 = "\<lparr>calls = [NodeGroupTaintEventAdd ''workers'' 3, BeginTaintFailSafeCall 3], logs = []\<rparr>"
  let ?w4 = "\<lparr>calls = [NodeGroupTaintEventAdd ''workers'' 3, BeginTaintFailSafeCall 3,
                    AddToBeRemovedTaintCall nodeB, AddToBeRemovedTaintCall nodeC,
                    AddToBeRemovedTaintCall nodeA],
           logs = [LogTainting False ''b'', LogWhileTainting ''b'' (ExternalError ''conflict''),
                   LogTainting False ''c'', LogTainting False ''a'']\<rparr>"
  have n: "clampedNodesToRemove mismatchOpts = 3"
    by (simp add: clampedNodesToRemove_def goSub_def int64_def sample_defs)
  have b: "\<not> belowMinimum mismatchOpts"
    by (simp add: belowMinimum_def goSub_def int64_def sample_defs)
  have g: "BeginTaintFailSafe sampleEnv
        (calls emptyWorld @ [NodeGroupTaintEventAdd (GroupName (Opts (nodeGroup mismatchOpts)))
                               (clampedNodesToRemove mismatchOpts)])
        (clampedNodesToRemove mismatchOpts) = None"
    unfolding n by (simp add: sample_defs)
  have c: "calls ?w3 = calls emptyWorld
           @ [NodeGroupTaintEventAdd (GroupName (Opts (nodeGroup mismatchOpts)))
                (clampedNodesToRemove mismatchOpts),
              BeginTaintFailSafeCall (clampedNodesToRemove mismatchOpts)]"
    unfolding n by (simp add: sample_defs)
  have t: "taintOldestN sampleEnv sampleController (untaintedNodes mismatchOpts)
        (nodeGroup mismatchOpts) (clampedNodesToRemove mismatchOpts) ?w3
       = Return ([2, 0], nodeGroup mismatchOpts, ?w4)"
    unfolding n
    by (simp add: taintOldestN_def ranking_def dryMode_def call_def logln_def sample_defs)
  have e: "EndTaintFailSafe sampleEnv (calls ?w4) (int (length [2::nat, 0]))
      = Some (ExternalError ''mismatch'')"
    by (simp add: sample_defs)
  from scaleDownTaint_mismatch_keeps_taints[OF b g c t e] n b g t e
  show ?thesis
    by (simp add: Let_def scaleDownTaint_def taintWithFailSafe_def taintOldestN_def ranking_def
        dryMode_def goSub_def int64_def call_def logln_def sample_defs)
qed

subsection \<open>The order of reaper and tainter\<close>




end
